theory Spec2Isabelle
  imports Main
begin

section \<open>Data model\<close>

text \<open>
  The tables of the migrations, one record per row type and one list per table, in
  insertion order. A \<open>uuid\<close> is the string the client handles; a \<open>timestamptz\<close> is a
  number of milliseconds since the epoch, so that the client's \<open>Date.now()\<close> and the
  server's \<open>now()\<close> are values of one type. Every clock reading and every generated id
  is an argument of the operation that takes it. The functions of the migrations are
  SECURITY DEFINER and run past row-level security; of the statements a client sends
  itself, the UPDATE of \<open>markMessageAsDelivered\<close> carries its policy, and the others are
  modelled as executed once the policy has admitted them. Foreign-key checks are left
  out. \<open>unread_count\<close> is an unbounded integer; the upper bound of PostgreSQL's
  \<open>integer\<close> is not modelled.
\<close>

type_synonym uuid = string
type_synonym timestamptz = int

datatype message_status = Sent | Delivered | Read

datatype presence_status = Online | Offline | Away

record contact_row =
  c_id :: uuid
  c_user_id :: uuid
  c_contact_user_id :: uuid

record persona_channel_row =
  pc_id :: uuid
  pc_contact_id :: uuid
  pc_persona_id :: uuid
  pc_last_message_at :: "timestamptz option"
  pc_is_locked :: bool
  pc_notification_enabled :: bool
  pc_created_at :: timestamptz
  pc_unread_count :: int

text \<open>
  Message content is a JavaScript string: a list of UTF-16 code units, since
  \<open>String.prototype.trim\<close> is defined on code units.
\<close>

type_synonym js_string = "nat list"

record message_row =
  m_id :: uuid
  m_channel_id :: uuid
  m_sender_id :: uuid
  m_content :: js_string
  m_created_at :: timestamptz
  m_status :: message_status
  m_delivered_at :: "timestamptz option"
  m_read_at :: "timestamptz option"
  m_file_url :: "string option"
  m_file_type :: "string option"
  m_file_name :: "string option"

record typing_indicator_row =
  ti_id :: uuid
  ti_channel_id :: uuid
  ti_user_id :: uuid
  ti_created_at :: timestamptz
  ti_expires_at :: timestamptz

record user_presence_row =
  up_id :: uuid
  up_user_id :: uuid
  up_status :: presence_status
  up_last_seen :: timestamptz
  up_updated_at :: timestamptz

record database =
  contacts :: "contact_row list"
  persona_channels :: "persona_channel_row list"
  messages :: "message_row list"
  typing_indicators :: "typing_indicator_row list"
  user_presence :: "user_presence_row list"

section \<open>Message store (migration functions and ChatView calls)\<close>

text \<open>
  \<open>mark_messages_as_read(p_channel_id, p_user_id)\<close>: one UPDATE over the messages
  table; \<open>now\<close> is the server's \<open>now()\<close>.
\<close>

definition mark_messages_as_read :: "uuid \<Rightarrow> uuid \<Rightarrow> timestamptz \<Rightarrow> database \<Rightarrow> database" where
  "mark_messages_as_read p_channel_id p_user_id now db =
     db\<lparr>messages :=
          map (\<lambda>m. if m_channel_id m = p_channel_id \<and> m_sender_id m \<noteq> p_user_id
                        \<and> m_status m \<noteq> Read
                    then m\<lparr>m_status := Read, m_read_at := Some now\<rparr>
                    else m)
              (messages db)\<rparr>"


section \<open>Unread counter and the insert triggers\<close>

text \<open>
  The trigger function \<open>increment_unread_count\<close>. Its SELECT INTO takes the first row
  of the join of \<open>persona_channels\<close> with \<open>contacts\<close>, and leaves
  \<open>channel_owner_id\<close> NULL when there is none; a comparison with NULL is not true, so
  the IF branch is then skipped.
\<close>

definition channel_owner_id :: "database \<Rightarrow> uuid \<Rightarrow> uuid option" where
  "channel_owner_id db channel_id =
     (case concat (map (\<lambda>pc. concat (map (\<lambda>c.
              if c_id c = pc_contact_id pc \<and> pc_id pc = channel_id then [c_user_id c] else [])
            (contacts db))) (persona_channels db)) of
        [] \<Rightarrow> None
      | x # _ \<Rightarrow> Some x)"

definition increment_unread_count :: "message_row \<Rightarrow> database \<Rightarrow> database" where
  "increment_unread_count NEW db =
     (case channel_owner_id db (m_channel_id NEW) of
        None \<Rightarrow> db
      | Some owner \<Rightarrow>
          if m_sender_id NEW \<noteq> owner
          then db\<lparr>persona_channels :=
                  map (\<lambda>pc. if pc_id pc = m_channel_id NEW
                             then pc\<lparr>pc_unread_count := pc_unread_count pc + 1\<rparr> else pc)
                      (persona_channels db)\<rparr>
          else db)"

text \<open>
  The trigger function \<open>update_channel_last_message_at\<close> of the schema migration under
  \<open>multi-persona-messenger-main\<close>: GREATEST of the stored value (the epoch when NULL)
  and the new row's \<open>created_at\<close>.
\<close>

definition update_channel_last_message_at :: "message_row \<Rightarrow> database \<Rightarrow> database" where
  "update_channel_last_message_at NEW db =
     db\<lparr>persona_channels :=
          map (\<lambda>pc. if pc_id pc = m_channel_id NEW
                     then pc\<lparr>pc_last_message_at :=
                              Some (max (case pc_last_message_at pc of None \<Rightarrow> 0 | Some t \<Rightarrow> t)
                                        (m_created_at NEW))\<rparr>
                     else pc)
              (persona_channels db)\<rparr>"

text \<open>
  INSERT INTO messages: the row is appended and the AFTER INSERT row triggers run in the
  same statement. (The third trigger writes \<open>persona_analytics\<close>, a table no claim
  reads.)
\<close>

definition insert_message :: "message_row \<Rightarrow> database \<Rightarrow> database" where
  "insert_message NEW db =
     increment_unread_count NEW
       (update_channel_last_message_at NEW (db\<lparr>messages := messages db @ [NEW]\<rparr>))"

definition reset_unread_count :: "uuid \<Rightarrow> database \<Rightarrow> database" where
  "reset_unread_count p_channel_id db =
     db\<lparr>persona_channels :=
          map (\<lambda>pc. if pc_id pc = p_channel_id then pc\<lparr>pc_unread_count := 0\<rparr> else pc)
              (persona_channels db)\<rparr>"

definition unread_count_of :: "database \<Rightarrow> uuid \<Rightarrow> int option" where
  "unread_count_of db channel_id =
     map_option pc_unread_count (find (\<lambda>pc. pc_id pc = channel_id) (persona_channels db))"

definition last_message_at_of :: "database \<Rightarrow> uuid \<Rightarrow> timestamptz option option" where
  "last_message_at_of db channel_id =
     map_option pc_last_message_at (find (\<lambda>pc. pc_id pc = channel_id) (persona_channels db))"

text \<open>An interleaving of message inserts and reset calls, on any channels.\<close>

datatype channel_op = InsertMessage message_row | ResetUnread uuid

fun apply_op :: "database \<Rightarrow> channel_op \<Rightarrow> database" where
  "apply_op db (InsertMessage m) = insert_message m db"
| "apply_op db (ResetUnread ch) = reset_unread_count ch db"

definition run_ops :: "database \<Rightarrow> channel_op list \<Rightarrow> database" where
  "run_ops db ops = foldl apply_op db ops"

text \<open>
  What the counter is compared with: the operations after the last reset of the channel,
  and among them the inserts into the channel whose sender is not the owner.
\<close>

definition since_last_reset :: "uuid \<Rightarrow> channel_op list \<Rightarrow> channel_op list" where
  "since_last_reset ch ops = rev (takeWhile (\<lambda>op. op \<noteq> ResetUnread ch) (rev ops))"

fun inbound :: "uuid \<Rightarrow> uuid \<Rightarrow> channel_op \<Rightarrow> bool" where
  "inbound owner ch (InsertMessage m) = (m_channel_id m = ch \<and> m_sender_id m \<noteq> owner)"
| "inbound owner ch (ResetUnread _) = False"

definition inbound_since_reset :: "uuid \<Rightarrow> uuid \<Rightarrow> channel_op list \<Rightarrow> nat" where
  "inbound_since_reset owner ch ops = length (filter (inbound owner ch) (since_last_reset ch ops))"

section \<open>Channel resolver (ChatView.loadChannel)\<close>

datatype db_error = unique_violation

text \<open>\<open>.select('*').eq(...).eq(...).maybeSingle()\<close>: the row when exactly one matches.\<close>

definition select_persona_channel :: "uuid \<Rightarrow> uuid \<Rightarrow> database \<Rightarrow> persona_channel_row option" where
  "select_persona_channel contact persona db =
     (case filter (\<lambda>pc. pc_contact_id pc = contact \<and> pc_persona_id pc = persona)
                  (persona_channels db) of
        [pc] \<Rightarrow> Some pc
      | _ \<Rightarrow> None)"

text \<open>
  The row an insert of \<open>{contact_id, persona_id}\<close> creates: the other columns take
  the defaults of the two migrations. The generated id and \<open>now()\<close> are the pair
  \<open>gen\<close>.
\<close>

definition default_channel :: "uuid \<times> timestamptz \<Rightarrow> uuid \<Rightarrow> uuid \<Rightarrow> persona_channel_row" where
  "default_channel gen contact persona =
     \<lparr>pc_id = fst gen, pc_contact_id = contact, pc_persona_id = persona,
      pc_last_message_at = None, pc_is_locked = False, pc_notification_enabled = True,
      pc_created_at = snd gen, pc_unread_count = 0\<rparr>"

text \<open>
  \<open>.insert({contact_id, persona_id}).select().single()\<close>: the primary key and
  UNIQUE(contact_id, persona_id) reject a duplicate; otherwise the new row is stored
  and returned.
\<close>

definition insert_persona_channel ::
  "uuid \<times> timestamptz \<Rightarrow> uuid \<Rightarrow> uuid \<Rightarrow> database \<Rightarrow> db_error + persona_channel_row \<times> database" where
  "insert_persona_channel gen contact persona db =
     (if \<exists>pc \<in> set (persona_channels db).
           pc_id pc = fst gen \<or> (pc_contact_id pc = contact \<and> pc_persona_id pc = persona)
      then Inl unique_violation
      else let row = default_channel gen contact persona
           in Inr (row, db\<lparr>persona_channels := persona_channels db @ [row]\<rparr>))"

text \<open>
  The state of one mounted ChatView: its props (the ids of \<open>user\<close>, \<open>contact\<close> and
  \<open>persona\<close>) and the React state the modelled handlers write.
\<close>

record chat_view =
  cv_user_id :: uuid
  cv_contact_id :: uuid
  cv_contact_user_id :: uuid
  cv_persona_id :: uuid
  cv_channelId :: "uuid option"
  cv_newMessage :: js_string
  cv_loading :: bool
  cv_isLocked :: bool
  cv_notificationsEnabled :: bool
  cv_contactTyping :: bool

text \<open>
  \<open>loadChannel\<close> suspends at its first \<open>await\<close>, so it is two steps: the select, and
  everything after it, which runs on whatever the table holds by then. The \<open>error\<close> of
  the insert is not read: on failure \<open>newChannel\<close> is null and no state is set.
\<close>

definition loadChannel_resume ::
  "persona_channel_row option \<Rightarrow> uuid \<times> timestamptz \<Rightarrow> chat_view \<Rightarrow> database \<Rightarrow> chat_view \<times> database" where
  "loadChannel_resume selected gen cv db =
     (let (channel, db') =
            (case selected of
               Some pc \<Rightarrow> (Some pc, db)
             | None \<Rightarrow>
                 (case insert_persona_channel gen (cv_contact_id cv) (cv_persona_id cv) db of
                    Inl e \<Rightarrow> (None, db)
                  | Inr (newChannel, db1) \<Rightarrow> (Some newChannel, db1)));
          cv' = (case channel of
                   Some pc \<Rightarrow> cv\<lparr>cv_channelId := Some (pc_id pc), cv_isLocked := pc_is_locked pc,
                                 cv_notificationsEnabled := pc_notification_enabled pc\<rparr>
                 | None \<Rightarrow> cv)
      in (cv'\<lparr>cv_loading := False\<rparr>, db'))"

definition loadChannel :: "uuid \<times> timestamptz \<Rightarrow> chat_view \<Rightarrow> database \<Rightarrow> chat_view \<times> database" where
  "loadChannel gen cv db =
     loadChannel_resume (select_persona_channel (cv_contact_id cv) (cv_persona_id cv) db)
       gen (cv\<lparr>cv_loading := True\<rparr>) db"

text \<open>
  Two views racing on one pair: both selects run before either insert; the first view's
  insert runs first.
\<close>

definition loadChannel_race ::
  "uuid \<times> timestamptz \<Rightarrow> uuid \<times> timestamptz \<Rightarrow> chat_view \<Rightarrow> chat_view \<Rightarrow> database
     \<Rightarrow> chat_view \<times> chat_view \<times> database" where
  "loadChannel_race gen1 gen2 cv1 cv2 db =
     (let sel1 = select_persona_channel (cv_contact_id cv1) (cv_persona_id cv1) db;
          sel2 = select_persona_channel (cv_contact_id cv2) (cv_persona_id cv2) db;
          (cv1', db1) = loadChannel_resume sel1 gen1 (cv1\<lparr>cv_loading := True\<rparr>) db;
          (cv2', db2) = loadChannel_resume sel2 gen2 (cv2\<lparr>cv_loading := True\<rparr>) db1
      in (cv1', cv2', db2))"

definition rows_for_pair :: "uuid \<Rightarrow> uuid \<Rightarrow> database \<Rightarrow> persona_channel_row list" where
  "rows_for_pair contact persona db =
     filter (\<lambda>pc. pc_contact_id pc = contact \<and> pc_persona_id pc = persona) (persona_channels db)"

text \<open>The two uniqueness constraints of \<open>persona_channels\<close>.\<close>

definition channels_unique :: "database \<Rightarrow> bool" where
  "channels_unique db =
     (distinct (map pc_id (persona_channels db))
      \<and> distinct (map (\<lambda>pc. (pc_contact_id pc, pc_persona_id pc)) (persona_channels db)))"

section \<open>Typing signaler (typingService)\<close>

definition sendTypingIndicator ::
  "uuid \<Rightarrow> uuid \<Rightarrow> timestamptz \<Rightarrow> uuid \<times> timestamptz \<Rightarrow> database \<Rightarrow> database" where
  "sendTypingIndicator channelId userId date_now gen db =
     (let expiresAt = date_now + 5000 in
      if \<exists>ti \<in> set (typing_indicators db). ti_channel_id ti = channelId \<and> ti_user_id ti = userId
      then db\<lparr>typing_indicators :=
                map (\<lambda>ti. if ti_channel_id ti = channelId \<and> ti_user_id ti = userId
                           then ti\<lparr>ti_expires_at := expiresAt\<rparr> else ti)
                    (typing_indicators db)\<rparr>
      else db\<lparr>typing_indicators := typing_indicators db @
                [\<lparr>ti_id = fst gen, ti_channel_id = channelId, ti_user_id = userId,
                  ti_created_at = snd gen, ti_expires_at = expiresAt\<rparr>]\<rparr>)"

definition removeTypingIndicator :: "uuid \<Rightarrow> uuid \<Rightarrow> database \<Rightarrow> database" where
  "removeTypingIndicator channelId userId db =
     db\<lparr>typing_indicators :=
          filter (\<lambda>ti. \<not> (ti_channel_id ti = channelId \<and> ti_user_id ti = userId))
                 (typing_indicators db)\<rparr>"

text \<open>
  \<open>cleanupTyping(channelId, userId)\<close> with both arguments given; an empty string is
  falsy. The timeout handles it clears are client-local timers and are not part of the
  store.
\<close>

definition cleanupTyping :: "uuid \<Rightarrow> uuid \<Rightarrow> database \<Rightarrow> database" where
  "cleanupTyping channelId userId db =
     (if channelId \<noteq> [] \<and> userId \<noteq> [] then removeTypingIndicator channelId userId db else db)"

definition typing_rows :: "uuid \<Rightarrow> uuid \<Rightarrow> database \<Rightarrow> typing_indicator_row list" where
  "typing_rows channelId userId db =
     filter (\<lambda>ti. ti_channel_id ti = channelId \<and> ti_user_id ti = userId) (typing_indicators db)"

definition typing_unique :: "database \<Rightarrow> bool" where
  "typing_unique db =
     distinct (map (\<lambda>ti. (ti_channel_id ti, ti_user_id ti)) (typing_indicators db))"

datatype event_type = INSERT | UPDATE | DELETE

text \<open>
  Modelled from the spec: the change-event payload of the realtime client, whose type
  declaration is not under src/. The design notes give it as the tagged variant
  \<open>{Inserted(Row), Updated(Row), Deleted(Id)}\<close>: an insert or update event carries the
  new row, a delete event carries only the key of the row that is gone.
\<close>

datatype typing_payload =
    Inserted typing_indicator_row
  | Updated typing_indicator_row
  | Deleted uuid

fun eventType :: "typing_payload \<Rightarrow> event_type" where
  "eventType (Inserted row) = INSERT"
| "eventType (Updated row) = UPDATE"
| "eventType (Deleted key) = DELETE"

text \<open>
  \<open>payload.new\<close>: the new row, or the empty object of a delete event (\<open>None\<close>), on
  which every field the handler reads is \<open>undefined\<close>.
\<close>

fun payload_new :: "typing_payload \<Rightarrow> typing_indicator_row option" where
  "payload_new (Inserted row) = Some row"
| "payload_new (Updated row) = Some row"
| "payload_new (Deleted key) = None"

text \<open>
  The handler that \<open>subscribeToTyping(channelId, currentUserId, callback)\<close> registers,
  run on one event at the subscriber's clock reading \<open>date_now\<close>. The result is the
  pair of arguments the callback is called with, or \<open>None\<close> when it is not called;
  the user id passed is \<open>None\<close> when \<open>indicator.user_id\<close> is \<open>undefined\<close>. The
  subscription's filter \<open>channel_id=eq.channelId\<close> is the first test, on the row the
  event carries; a delete event carries none. \<open>undefined === currentUserId\<close> is false,
  and \<open>new Date(undefined) > new Date()\<close> is a comparison with an invalid date, which
  is false.
\<close>

definition subscribeToTyping ::
  "uuid \<Rightarrow> uuid \<Rightarrow> timestamptz \<Rightarrow> typing_payload \<Rightarrow> (bool \<times> uuid option) option" where
  "subscribeToTyping channelId currentUserId date_now payload =
     (let indicator = payload_new payload;
          user_id = map_option ti_user_id indicator in
      if (case indicator of None \<Rightarrow> False | Some row \<Rightarrow> ti_channel_id row \<noteq> channelId) then None
      else if user_id = Some currentUserId then None
      else let isValid = (case indicator of None \<Rightarrow> False
                          | Some row \<Rightarrow> ti_expires_at row > date_now) in
           (case eventType payload of
              INSERT \<Rightarrow> Some (isValid, user_id)
            | UPDATE \<Rightarrow> Some (isValid, user_id)
            | DELETE \<Rightarrow> Some (False, user_id)))"

text \<open>
  \<open>subscribeToTypingIndicators\<close> of ChatView: the callback it passes sets
  \<open>contactTyping\<close> when the reported user is the contact.
\<close>

definition subscribeToTypingIndicators :: "timestamptz \<Rightarrow> typing_payload \<Rightarrow> chat_view \<Rightarrow> chat_view" where
  "subscribeToTypingIndicators date_now payload cv =
     (case cv_channelId cv of
        None \<Rightarrow> cv
      | Some ch \<Rightarrow>
          if ch = [] then cv
          else (case subscribeToTyping ch (cv_user_id cv) date_now payload of
                  None \<Rightarrow> cv
                | Some (isTyping, userId) \<Rightarrow>
                    if userId = Some (cv_contact_user_id cv)
                    then cv\<lparr>cv_contactTyping := isTyping\<rparr>
                    else cv))"

section \<open>ChatView calls on an open channel\<close>

text \<open>
  \<open>markMessagesAsRead\<close> and \<open>resetUnreadCount\<close>: each returns when
  \<open>channelId\<close> is falsy (null or empty) and otherwise makes the RPC, the first with
  the current user as the reader.
\<close>

definition markMessagesAsRead :: "timestamptz \<Rightarrow> chat_view \<Rightarrow> database \<Rightarrow> database" where
  "markMessagesAsRead now cv db =
     (case cv_channelId cv of
        None \<Rightarrow> db
      | Some ch \<Rightarrow> if ch = [] then db else mark_messages_as_read ch (cv_user_id cv) now db)"

definition resetUnreadCount :: "chat_view \<Rightarrow> database \<Rightarrow> database" where
  "resetUnreadCount cv db =
     (case cv_channelId cv of
        None \<Rightarrow> db
      | Some ch \<Rightarrow> if ch = [] then db else reset_unread_count ch db)"









section \<open>Sending a message (ChatView.handleSendMessage)\<close>

text \<open>
  The code units that \<open>String.prototype.trim\<close> strips: ECMAScript's WhiteSpace and
  LineTerminator.
\<close>

definition isWhiteSpace :: "nat \<Rightarrow> bool" where
  "isWhiteSpace c =
     (c \<in> {9, 10, 11, 12, 13, 32, 160, 5760, 8232, 8233, 8239, 8287, 12288, 65279}
      \<or> (8192 \<le> c \<and> c \<le> 8202))"

definition trim :: "js_string \<Rightarrow> js_string" where
  "trim s = rev (dropWhile isWhiteSpace (rev (dropWhile isWhiteSpace s)))"

text \<open>
  The row that the insert of \<open>{channel_id, sender_id, content, status: 'sent'}\<close>
  creates: the id and \<open>created_at\<close> are generated by the server, the other columns
  take their defaults.
\<close>

definition new_message :: "uuid \<times> timestamptz \<Rightarrow> uuid \<Rightarrow> uuid \<Rightarrow> js_string \<Rightarrow> message_row" where
  "new_message gen channel_id sender_id content =
     \<lparr>m_id = fst gen, m_channel_id = channel_id, m_sender_id = sender_id, m_content = content,
      m_created_at = snd gen, m_status = Sent, m_delivered_at = None, m_read_at = None,
      m_file_url = None, m_file_type = None, m_file_name = None\<rparr>"

text \<open>
  \<open>handleSendMessage\<close>: the guard, the insert, the client's own write of
  \<open>last_message_at\<close> (\<open>date_now\<close> is its \<open>new Date()\<close>), the cleared input and the
  typing cleanup. A null or empty \<open>channelId\<close> is falsy.
\<close>

definition handleSendMessage ::
  "uuid \<times> timestamptz \<Rightarrow> timestamptz \<Rightarrow> chat_view \<Rightarrow> database \<Rightarrow> chat_view \<times> database" where
  "handleSendMessage gen date_now cv db =
     (case cv_channelId cv of
        None \<Rightarrow> (cv, db)
      | Some ch \<Rightarrow>
          if trim (cv_newMessage cv) = [] \<or> ch = [] then (cv, db)
          else let message = new_message gen ch (cv_user_id cv) (trim (cv_newMessage cv));
                   db1 = insert_message message db;
                   db2 = db1\<lparr>persona_channels :=
                              map (\<lambda>pc. if pc_id pc = ch
                                         then pc\<lparr>pc_last_message_at := Some date_now\<rparr> else pc)
                                  (persona_channels db1)\<rparr>
               in (cv\<lparr>cv_newMessage := []\<rparr>, cleanupTyping ch (cv_user_id cv) db2))"

section \<open>Presence tracker (presenceService)\<close>

text \<open>
  \<open>updatePresence(userId, status)\<close>: an upsert on \<open>user_id\<close>. The two
  \<open>new Date()\<close> readings are the pair \<open>dates\<close>; the id is used when a row is created.
\<close>

definition updatePresence ::
  "uuid \<Rightarrow> presence_status \<Rightarrow> timestamptz \<times> timestamptz \<Rightarrow> uuid \<Rightarrow> database \<Rightarrow> database" where
  "updatePresence userId status dates gen_id db =
     (if \<exists>up \<in> set (user_presence db). up_user_id up = userId
      then db\<lparr>user_presence :=
                map (\<lambda>up. if up_user_id up = userId
                           then up\<lparr>up_status := status, up_last_seen := fst dates,
                                   up_updated_at := snd dates\<rparr>
                           else up)
                    (user_presence db)\<rparr>
      else db\<lparr>user_presence := user_presence db @
                [\<lparr>up_id = gen_id, up_user_id = userId, up_status = status,
                  up_last_seen = fst dates, up_updated_at = snd dates\<rparr>]\<rparr>)"

text \<open>
  The callers of \<open>updatePresence\<close>: the interval tick of \<open>startHeartbeat\<close>, the two
  directions of its visibility listener, and the teardown (its \<open>beforeunload\<close> listener
  and \<open>stopHeartbeat(userId)\<close>).
\<close>

datatype presence_event = HeartbeatTick | VisibilityHidden | VisibilityVisible | Teardown

fun event_status :: "presence_event \<Rightarrow> presence_status" where
  "event_status HeartbeatTick = Online"
| "event_status VisibilityHidden = Away"
| "event_status VisibilityVisible = Online"
| "event_status Teardown = Offline"

record presence_call =
  call_user :: uuid
  call_event :: presence_event
  call_last_seen :: timestamptz
  call_updated_at :: timestamptz
  call_gen_id :: uuid

definition presence_step :: "database \<Rightarrow> presence_call \<Rightarrow> database" where
  "presence_step db c =
     updatePresence (call_user c) (event_status (call_event c))
       (call_last_seen c, call_updated_at c) (call_gen_id c) db"

definition presence_run :: "database \<Rightarrow> presence_call list \<Rightarrow> database" where
  "presence_run db calls = foldl presence_step db calls"

definition last_seen_of :: "database \<Rightarrow> uuid \<Rightarrow> timestamptz option" where
  "last_seen_of db userId =
     map_option up_last_seen (find (\<lambda>up. up_user_id up = userId) (user_presence db))"

definition presence_rows :: "uuid \<Rightarrow> database \<Rightarrow> user_presence_row list" where
  "presence_rows userId db = filter (\<lambda>up. up_user_id up = userId) (user_presence db)"

definition presence_unique :: "database \<Rightarrow> bool" where
  "presence_unique db = distinct (map up_user_id (user_presence db))"

text \<open>
  The values \<open>last_seen\<close> takes for a user along a sequence of calls: before the first
  call and after each one, as far as the row exists.
\<close>

fun last_seen_values :: "database \<Rightarrow> presence_call list \<Rightarrow> uuid \<Rightarrow> timestamptz list" where
  "last_seen_values db [] u = (case last_seen_of db u of None \<Rightarrow> [] | Some t \<Rightarrow> [t])"
| "last_seen_values db (c # cs) u =
     (case last_seen_of db u of None \<Rightarrow> [] | Some t \<Rightarrow> [t])
       @ last_seen_values (presence_step db c) cs u"

section \<open>UnreadBadge\<close>

text \<open>\<open>Number.prototype.toString\<close> on an integer: its decimal numeral.\<close>

definition digit_char :: "nat \<Rightarrow> char" where
  "digit_char d = ''0123456789'' ! d"

fun digits :: "nat \<Rightarrow> string" where
  "digits n = (if n < 10 then [digit_char n] else digits (n div 10) @ [digit_char (n mod 10)])"

definition toString :: "int \<Rightarrow> string" where
  "toString i = (if i < 0 then CHR ''-'' # digits (nat (- i)) else digits (nat i))"

datatype badge_size = sm | md | lg

definition sizeClasses :: "badge_size \<Rightarrow> string" where
  "sizeClasses s = (case s of
       sm \<Rightarrow> ''min-w-[16px] h-4 text-[10px] px-1''
     | md \<Rightarrow> ''min-w-[20px] h-5 text-xs px-1.5''
     | lg \<Rightarrow> ''min-w-[24px] h-6 text-sm px-2'')"

record badge =
  className :: string
  displayCount :: string

text \<open>
  \<open>UnreadBadge({count, size, max})\<close>: \<open>None\<close> is the \<open>null\<close> the component returns
  (nothing rendered). The defaults \<open>size = 'md'\<close> and \<open>max = 99\<close> are those of the
  destructuring pattern.
\<close>

definition UnreadBadge :: "int \<Rightarrow> badge_size \<Rightarrow> int \<Rightarrow> badge option" where
  "UnreadBadge count sz mx =
     (if count \<le> 0 then None
      else Some \<lparr>className = sizeClasses sz
                    @ '' bg-red-500 text-white rounded-full flex items-center justify-center font-semibold'',
                 displayCount = (if count > mx then toString mx @ ''+'' else toString count)\<rparr>)"

definition UnreadBadge_default :: "int \<Rightarrow> badge option" where
  "UnreadBadge_default count = UnreadBadge count md 99"

section \<open>File service (fileService)\<close>

definition MAX_FILE_SIZE :: nat where
  "MAX_FILE_SIZE = 50 * 1024 * 1024"

definition ALLOWED_IMAGE_TYPES :: "string list" where
  "ALLOWED_IMAGE_TYPES =
     [''image/jpeg'', ''image/png'', ''image/gif'', ''image/webp'', ''image/svg+xml'']"

definition ALLOWED_DOCUMENT_TYPES :: "string list" where
  "ALLOWED_DOCUMENT_TYPES =
     [''application/pdf'',
      ''application/msword'',
      ''application/vnd.openxmlformats-officedocument.wordprocessingml.document'',
      ''application/vnd.ms-excel'',
      ''application/vnd.openxmlformats-officedocument.spreadsheetml.sheet'',
      ''application/vnd.ms-powerpoint'',
      ''application/vnd.openxmlformats-officedocument.presentationml.presentation'',
      ''text/plain'']"

definition ALLOWED_VIDEO_TYPES :: "string list" where
  "ALLOWED_VIDEO_TYPES = [''video/mp4'', ''video/webm'', ''video/ogg'']"

definition ALLOWED_AUDIO_TYPES :: "string list" where
  "ALLOWED_AUDIO_TYPES = [''audio/mpeg'', ''audio/ogg'', ''audio/wav'', ''audio/webm'']"

definition ALLOWED_TYPES :: "string list" where
  "ALLOWED_TYPES =
     ALLOWED_IMAGE_TYPES @ ALLOWED_DOCUMENT_TYPES @ ALLOWED_VIDEO_TYPES @ ALLOWED_AUDIO_TYPES"

record js_file =
  f_name :: string
  f_size :: nat
  f_type :: string

record validation =
  v_valid :: bool
  v_error :: "string option"

definition validateFile :: "js_file \<Rightarrow> validation" where
  "validateFile f =
     (if f_size f > MAX_FILE_SIZE
      then \<lparr>v_valid = False,
            v_error = Some (''File size exceeds '' @ toString (int (MAX_FILE_SIZE div 1024 div 1024))
                            @ ''MB limit'')\<rparr>
      else if f_type f \<notin> set ALLOWED_TYPES
      then \<lparr>v_valid = False, v_error = Some ''File type not allowed''\<rparr>
      else \<lparr>v_valid = True, v_error = None\<rparr>)"

datatype js_error = Error string

record FileUploadResult =
  r_url :: string
  r_path :: string
  r_type :: string
  r_name :: string
  r_size :: nat

text \<open>
  The bucket \<open>message-attachments\<close>: the stored objects by path. An upload with
  \<open>upsert: false\<close> fails on a path that is taken.
\<close>

type_synonym bucket = "(string \<times> js_file) list"

definition storage_upload :: "string \<Rightarrow> js_file \<Rightarrow> bucket \<Rightarrow> string + bucket" where
  "storage_upload filePath f b =
     (if filePath \<in> set (map fst b) then Inl ''The resource already exists''
      else Inr (b @ [(filePath, f)]))"

text \<open>\<open>file.name.split('.').pop()\<close>: what follows the last dot, or the whole name.\<close>

definition fileExt :: "string \<Rightarrow> string" where
  "fileExt name = rev (takeWhile (\<lambda>c. c \<noteq> CHR ''.'') (rev name))"

text \<open>
  \<open>uploadFile(file, channelId, userId)\<close>. The reading of \<open>Date.now()\<close>, the string
  \<open>Math.random().toString(36)\<close> and the storage client's \<open>getPublicUrl\<close> are
  arguments. A thrown Error is the left summand; the bucket is returned with it.
\<close>

definition uploadFile ::
  "js_file \<Rightarrow> uuid \<Rightarrow> uuid \<Rightarrow> int \<Rightarrow> string \<Rightarrow> (string \<Rightarrow> string) \<Rightarrow> bucket
     \<Rightarrow> (js_error + FileUploadResult) \<times> bucket" where
  "uploadFile f channel_id user_id date_now random36 getPublicUrl b =
     (let validation = validateFile f in
      if \<not> v_valid validation
      then (Inl (Error (case v_error validation of None \<Rightarrow> [] | Some e \<Rightarrow> e)), b)
      else let fileName = toString date_now @ ''-'' @ drop 7 random36 @ ''.'' @ fileExt (f_name f);
               filePath = channel_id @ ''/'' @ fileName
           in (case storage_upload filePath f b of
                 Inl e \<Rightarrow> (Inl (Error ''Failed to upload file''), b)
               | Inr b' \<Rightarrow>
                   (Inr \<lparr>r_url = getPublicUrl filePath, r_path = filePath, r_type = f_type f,
                         r_name = f_name f, r_size = f_size f\<rparr>, b')))"

section \<open>Example states\<close>

definition msg :: "uuid \<Rightarrow> uuid \<Rightarrow> uuid \<Rightarrow> message_status \<Rightarrow> timestamptz option \<Rightarrow> timestamptz option \<Rightarrow> message_row" where
  "msg i ch s st d r =
     \<lparr>m_id = i, m_channel_id = ch, m_sender_id = s, m_content = [104, 105], m_created_at = 1,
      m_status = st, m_delivered_at = d, m_read_at = r,
      m_file_url = None, m_file_type = None, m_file_name = None\<rparr>"

definition ex_contacts :: "contact_row list" where
  "ex_contacts = [\<lparr>c_id = ''k1'', c_user_id = ''bob'', c_contact_user_id = ''alice''\<rparr>]"

definition ex_channel :: "timestamptz option \<Rightarrow> int \<Rightarrow> persona_channel_row" where
  "ex_channel l n =
     \<lparr>pc_id = ''ch1'', pc_contact_id = ''k1'', pc_persona_id = ''p1'', pc_last_message_at = l,
      pc_is_locked = False, pc_notification_enabled = True, pc_created_at = 0,
      pc_unread_count = n\<rparr>"

definition ex_db :: "message_row list \<Rightarrow> database" where
  "ex_db ms =
     \<lparr>contacts = ex_contacts, persona_channels = [ex_channel None 0], messages = ms,
      typing_indicators = [], user_presence = []\<rparr>"

definition ex_msgs :: "message_row list" where
  "ex_msgs =
     [msg ''m1'' ''ch1'' ''alice'' Sent None None,
      msg ''m2'' ''ch1'' ''bob'' Sent None None,
      msg ''m3'' ''ch1'' ''alice'' Read (Some 2) (Some 3)]"

definition ex_ops :: "channel_op list" where
  "ex_ops =
     [InsertMessage (msg ''m1'' ''ch1'' ''alice'' Sent None None),
      InsertMessage (msg ''m2'' ''ch1'' ''bob'' Sent None None),
      ResetUnread ''ch1'',
      InsertMessage (msg ''m3'' ''ch1'' ''alice'' Sent None None),
      InsertMessage (msg ''m4'' ''ch2'' ''alice'' Sent None None),
      InsertMessage (msg ''m5'' ''ch1'' ''alice'' Sent None None),
      InsertMessage (msg ''m6'' ''ch1'' ''bob'' Sent None None)]"

definition ex_db_channels :: "persona_channel_row list \<Rightarrow> database" where
  "ex_db_channels pcs =
     \<lparr>contacts = ex_contacts, persona_channels = pcs, messages = [],
      typing_indicators = [], user_presence = []\<rparr>"

definition ex_view :: "uuid \<Rightarrow> uuid option \<Rightarrow> js_string \<Rightarrow> chat_view" where
  "ex_view u ch txt =
     \<lparr>cv_user_id = u, cv_contact_id = ''k1'', cv_contact_user_id = ''alice'',
      cv_persona_id = ''p1'', cv_channelId = ch, cv_newMessage = txt, cv_loading = False,
      cv_isLocked = False, cv_notificationsEnabled = True, cv_contactTyping = False\<rparr>"

definition ex_typing :: "uuid \<Rightarrow> timestamptz \<Rightarrow> typing_indicator_row" where
  "ex_typing u e =
     \<lparr>ti_id = ''t1'', ti_channel_id = ''ch1'', ti_user_id = u, ti_created_at = 0,
      ti_expires_at = e\<rparr>"

definition ex_call :: "uuid \<Rightarrow> presence_event \<Rightarrow> timestamptz \<Rightarrow> presence_call" where
  "ex_call u ev t =
     \<lparr>call_user = u, call_event = ev, call_last_seen = t, call_updated_at = t,
      call_gen_id = ''r-'' @ u\<rparr>"

section \<open>Theorems\<close>

subsection \<open>General facts about tables as lists\<close>

lemma find_map_preserve:
  "(\<And>x. P (f x) = P x) \<Longrightarrow> find P (map f xs) = map_option f (find P xs)"
  by (induction xs) auto

lemma find_Some_holds: "find P xs = Some x \<Longrightarrow> P x"
  by (induction xs) (auto split: if_splits)

lemma find_None_none: "find P xs = None \<longleftrightarrow> (\<forall>x \<in> set xs. \<not> P x)"
  by (induction xs) auto

lemma find_snoc:
  "find P (xs @ [y]) = (case find P xs of None \<Rightarrow> (if P y then Some y else None) | Some x \<Rightarrow> Some x)"
  by (induction xs) auto

lemma filter_key_single:
  "distinct (map f xs) \<Longrightarrow> x \<in> set xs \<Longrightarrow> filter (\<lambda>y. f y = f x) xs = [x]"
proof (induction xs)
  case Nil
  then show ?case by simp
next
  case (Cons a xs)
  show ?case
  proof (cases "a = x")
    case True
    have "\<forall>y \<in> set xs. f y \<noteq> f x"
      using Cons.prems(1) True by (auto simp: image_iff)
    then have "filter (\<lambda>y. f y = f x) xs = []"
      by (simp add: filter_empty_conv)
    with True show ?thesis by simp
  next
    case False
    with Cons.prems have "x \<in> set xs" by simp
    moreover have "f a \<noteq> f x"
      using Cons.prems(1) \<open>x \<in> set xs\<close> by (auto simp: image_iff)
    ultimately show ?thesis
      using Cons.IH Cons.prems(1) by simp
  qed
qed

lemma filter_map_preserve:
  "(\<And>x. P (f x) = P x) \<Longrightarrow> filter P (map f xs) = map f (filter P xs)"
  by (induction xs) auto

lemma map_key_preserve:
  "(\<And>x. k (g x) = k x) \<Longrightarrow> map k (map g xs) = map k xs"
  by (induction xs) auto

lemma distinct_key_rows:
  "distinct (map f xs) \<Longrightarrow> length (filter (\<lambda>x. f x = k) xs) \<le> 1"
proof (induction xs)
  case Nil
  show ?case by simp
next
  case (Cons a xs)
  show ?case
  proof (cases "f a = k")
    case True
    then have "\<forall>x \<in> set xs. f x \<noteq> k"
      using Cons.prems by (auto simp: image_iff)
    then have "filter (\<lambda>x. f x = k) xs = []"
      by (simp add: filter_empty_conv)
    with True show ?thesis by simp
  next
    case False
    with Cons show ?thesis by simp
  qed
qed

subsection \<open>C1: delivery status\<close>














subsection \<open>C2: unread counter\<close>

lemma owner_of_map:
  assumes "\<And>pc. pc_id (f pc) = pc_id pc" "\<And>pc. pc_contact_id (f pc) = pc_contact_id pc"
  shows "channel_owner_id (db\<lparr>persona_channels := map f (persona_channels db)\<rparr>) ch
         = channel_owner_id db ch"
  using assms by (simp add: channel_owner_id_def comp_def)

lemma owner_messages [simp]:
  "channel_owner_id (db\<lparr>messages := ms\<rparr>) ch = channel_owner_id db ch"
  by (simp add: channel_owner_id_def)

lemma owner_update_last [simp]:
  "channel_owner_id (update_channel_last_message_at m db) ch = channel_owner_id db ch"
  unfolding update_channel_last_message_at_def by (rule owner_of_map) auto

lemma owner_increment [simp]:
  "channel_owner_id (increment_unread_count m db) ch = channel_owner_id db ch"
proof (cases "channel_owner_id db (m_channel_id m)")
  case None
  then show ?thesis by (simp add: increment_unread_count_def)
next
  case (Some ow)
  have "channel_owner_id (db\<lparr>persona_channels :=
           map (\<lambda>pc. if pc_id pc = m_channel_id m
                      then pc\<lparr>pc_unread_count := pc_unread_count pc + 1\<rparr> else pc)
               (persona_channels db)\<rparr>) ch = channel_owner_id db ch"
    by (rule owner_of_map) auto
  with Some show ?thesis by (simp add: increment_unread_count_def)
qed

lemma owner_insert [simp]:
  "channel_owner_id (insert_message m db) ch = channel_owner_id db ch"
  by (simp add: insert_message_def)

lemma owner_reset [simp]:
  "channel_owner_id (reset_unread_count c db) ch = channel_owner_id db ch"
  unfolding reset_unread_count_def by (rule owner_of_map) auto

lemma owner_apply_op [simp]:
  "channel_owner_id (apply_op db op) ch = channel_owner_id db ch"
  by (cases op) simp_all

lemma unread_messages [simp]:
  "unread_count_of (db\<lparr>messages := ms\<rparr>) ch = unread_count_of db ch"
  by (simp add: unread_count_of_def)

lemma unread_of_map:
  assumes "\<And>pc. pc_id (f pc) = pc_id pc"
  shows "unread_count_of (db\<lparr>persona_channels := map f (persona_channels db)\<rparr>) ch
         = map_option (\<lambda>pc. pc_unread_count (f pc))
             (find (\<lambda>pc. pc_id pc = ch) (persona_channels db))"
  using assms by (simp add: unread_count_of_def find_map_preserve option.map_comp comp_def)

lemma unread_update_last [simp]:
  "unread_count_of (update_channel_last_message_at m db) ch = unread_count_of db ch"
  unfolding update_channel_last_message_at_def
  by (subst unread_of_map) (auto simp: unread_count_of_def intro!: option.map_cong)

lemma unread_reset:
  "unread_count_of (reset_unread_count c db) ch
     = map_option (\<lambda>n. if c = ch then 0 else n) (unread_count_of db ch)"
  unfolding reset_unread_count_def
  by (subst unread_of_map)
     (auto simp: unread_count_of_def option.map_comp comp_def dest: find_Some_holds
           intro!: option.map_cong)

lemma unread_increment:
  "unread_count_of (increment_unread_count m db) ch
     = map_option (\<lambda>n. if m_channel_id m = ch
                           \<and> (\<exists>ow. channel_owner_id db ch = Some ow \<and> m_sender_id m \<noteq> ow)
                        then n + 1 else n) (unread_count_of db ch)"
proof (cases "channel_owner_id db (m_channel_id m)")
  case None
  then show ?thesis
    by (cases "unread_count_of db ch") (auto simp: increment_unread_count_def)
next
  case (Some ow)
  show ?thesis
  proof (cases "m_sender_id m \<noteq> ow")
    case True
    with Some show ?thesis
      unfolding increment_unread_count_def
      apply simp
      apply (subst unread_of_map)
       apply simp
      apply (auto simp: unread_count_of_def option.map_comp comp_def dest: find_Some_holds
           intro!: option.map_cong)
      done
  next
    case False
    with Some have "unread_count_of (increment_unread_count m db) ch = unread_count_of db ch"
      by (simp add: increment_unread_count_def)
    moreover have "map_option (\<lambda>n. if m_channel_id m = ch
                           \<and> (\<exists>ow. channel_owner_id db ch = Some ow \<and> m_sender_id m \<noteq> ow)
                        then n + 1 else n) (unread_count_of db ch) = unread_count_of db ch"
      using Some False by (cases "unread_count_of db ch") auto
    ultimately show ?thesis by simp
  qed
qed

lemma unread_insert:
  "unread_count_of (insert_message m db) ch
     = map_option (\<lambda>n. if m_channel_id m = ch
                           \<and> (\<exists>ow. channel_owner_id db ch = Some ow \<and> m_sender_id m \<noteq> ow)
                        then n + 1 else n) (unread_count_of db ch)"
  by (simp add: insert_message_def unread_increment)

lemma unread_apply_op:
  assumes "channel_owner_id db ch = Some owner"
  shows "unread_count_of (apply_op db op) ch
     = map_option (\<lambda>n. if op = ResetUnread ch then 0
                        else if inbound owner ch op then n + 1 else n) (unread_count_of db ch)"
proof (cases op)
  case (InsertMessage m)
  with assms show ?thesis by (simp add: unread_insert)
next
  case (ResetUnread c)
  then show ?thesis by (auto simp: unread_reset intro!: option.map_cong)
qed

lemma owner_run_ops [simp]:
  "channel_owner_id (run_ops db ops) ch = channel_owner_id db ch"
  unfolding run_ops_def by (induction ops rule: rev_induct) simp_all

lemma since_last_reset_snoc:
  "since_last_reset ch (ops @ [op])
     = (if op = ResetUnread ch then [] else since_last_reset ch ops @ [op])"
  by (simp add: since_last_reset_def)

lemma unread_run_ops:
  assumes "channel_owner_id db ch = Some owner"
  shows "unread_count_of (run_ops db ops) ch
     = map_option (\<lambda>n0. (if ResetUnread ch \<in> set ops then 0 else n0)
                          + int (inbound_since_reset owner ch ops))
         (unread_count_of db ch)"
proof (induction ops rule: rev_induct)
  case Nil
  show ?case
    by (cases "unread_count_of db ch")
       (simp_all add: run_ops_def inbound_since_reset_def since_last_reset_def)
next
  case (snoc op ops)
  have own: "channel_owner_id (run_ops db ops) ch = Some owner"
    using assms by simp
  have step: "run_ops db (ops @ [op]) = apply_op (run_ops db ops) op"
    by (simp add: run_ops_def)
  show ?case
    unfolding step unread_apply_op [OF own] snoc.IH
    by (cases "unread_count_of db ch")
       (auto simp: inbound_since_reset_def since_last_reset_snoc)
qed

lemma messages_increment_unread_count:
  "messages (increment_unread_count m db) = messages db"
  by (simp add: increment_unread_count_def split: option.splits)

lemma messages_insert_message:
  "messages (insert_message m db) = messages db @ [m]"
  by (simp add: insert_message_def messages_increment_unread_count
        update_channel_last_message_at_def)

lemma reset_unread_count_twice:
  "reset_unread_count ch (reset_unread_count ch db) = reset_unread_count ch db"
  by (simp add: reset_unread_count_def comp_def cong: if_cong)

text \<open>
  C2. For a channel with an owning contact, after any interleaving of message inserts
  and reset calls (on this or any other channel) the counter is the number of inbound
  inserts into the channel since its last reset, added to 0 when there was a reset and to
  the starting value otherwise. The insert appends the message and bumps the counter in
  one operation: by exactly 1 for an inbound message, by nothing when the sender is the
  owner. A reset sets the counter to 0 whatever it was, and a second reset changes
  nothing; the view's \<open>resetUnreadCount\<close> is that reset on its channel.
\<close>

theorem unread_count_inbound_since_reset:
  assumes "channel_owner_id db ch = Some owner" and "unread_count_of db ch = Some n0"
  shows "unread_count_of (run_ops db ops) ch
           = Some ((if ResetUnread ch \<in> set ops then 0 else n0)
                   + int (inbound_since_reset owner ch ops))
         \<and> messages (insert_message m db) = messages db @ [m]
         \<and> (m_channel_id m = ch \<and> m_sender_id m \<noteq> owner \<longrightarrow>
              unread_count_of (insert_message m db) ch = Some (n0 + 1))
         \<and> (m_sender_id m = owner \<longrightarrow> unread_count_of (insert_message m db) ch = Some n0)
         \<and> unread_count_of (reset_unread_count ch db) ch = Some 0
         \<and> reset_unread_count ch (reset_unread_count ch db) = reset_unread_count ch db
         \<and> (cv_channelId cv = Some ch \<and> ch \<noteq> [] \<longrightarrow>
              resetUnreadCount cv db = reset_unread_count ch db)"
proof -
  have seq: "unread_count_of (run_ops db ops) ch
           = Some ((if ResetUnread ch \<in> set ops then 0 else n0)
                   + int (inbound_since_reset owner ch ops))"
    using unread_run_ops [OF assms(1), of ops] assms(2) by simp
  have ins: "unread_count_of (insert_message m db) ch
           = Some (if m_channel_id m = ch \<and> m_sender_id m \<noteq> owner then n0 + 1 else n0)"
    using assms by (simp add: unread_insert)
  have rst: "unread_count_of (reset_unread_count ch db) ch = Some 0"
    using assms(2) by (simp add: unread_reset)
  show ?thesis
    using seq ins rst
    by (simp add: messages_insert_message reset_unread_count_twice resetUnreadCount_def)
qed

theorem unread_count_inbound_since_reset_witness:
  "channel_owner_id (ex_db []) ''ch1'' = Some ''bob''
   \<and> unread_count_of (ex_db []) ''ch1'' = Some 0
   \<and> unread_count_of (run_ops (ex_db []) ex_ops) ''ch1'' = Some 2
   \<and> unread_count_of (insert_message (msg ''m1'' ''ch1'' ''alice'' Sent None None) (ex_db [])) ''ch1''
       = Some 1
   \<and> unread_count_of (insert_message (msg ''m2'' ''ch1'' ''bob'' Sent None None) (ex_db [])) ''ch1''
       = Some 0
   \<and> unread_count_of (reset_unread_count ''ch1'' (ex_db [])) ''ch1'' = Some 0
   \<and> resetUnreadCount (ex_view ''bob'' (Some ''ch1'') []) (ex_db [])
       = reset_unread_count ''ch1'' (ex_db [])"
proof -
  have h1: "channel_owner_id (ex_db []) ''ch1'' = Some ''bob''"
    by (simp add: channel_owner_id_def ex_db_def ex_contacts_def ex_channel_def)
  have h2: "unread_count_of (ex_db []) ''ch1'' = Some 0"
    by (simp add: unread_count_of_def ex_db_def ex_channel_def)
  have cnt: "inbound_since_reset ''bob'' ''ch1'' ex_ops = 2"
    by (simp add: inbound_since_reset_def since_last_reset_def ex_ops_def msg_def)
  have rs: "ResetUnread ''ch1'' \<in> set ex_ops"
    by (simp add: ex_ops_def)
  have view: "cv_channelId (ex_view ''bob'' (Some ''ch1'') []) = Some ''ch1''"
    by (simp add: ex_view_def)
  show ?thesis
    using h1 h2 cnt rs view
      unread_count_inbound_since_reset [OF h1 h2, of ex_ops
        "msg ''m1'' ''ch1'' ''alice'' Sent None None" "ex_view ''bob'' (Some ''ch1'') []"]
      unread_count_inbound_since_reset [OF h1 h2, of ex_ops
        "msg ''m2'' ''ch1'' ''bob'' Sent None None" "ex_view ''bob'' (Some ''ch1'') []"]
    by (simp add: msg_def)
qed

subsection \<open>C3: channel resolution\<close>

lemma insert_channel_ok:
  assumes "\<not> (\<exists>pc \<in> set (persona_channels db).
           pc_id pc = fst gen \<or> (pc_contact_id pc = c \<and> pc_persona_id pc = p))"
  shows "insert_persona_channel gen c p db
         = Inr (default_channel gen c p,
                db\<lparr>persona_channels := persona_channels db @ [default_channel gen c p]\<rparr>)"
  using assms unfolding insert_persona_channel_def Let_def
  by (rule if_not_P)

lemma insert_channel_conflict:
  assumes "\<exists>pc \<in> set (persona_channels db).
           pc_id pc = fst gen \<or> (pc_contact_id pc = c \<and> pc_persona_id pc = p)"
  shows "insert_persona_channel gen c p db = Inl unique_violation"
  using assms unfolding insert_persona_channel_def by (rule if_P)

lemma resume_selected:
  "loadChannel_resume (Some pc) gen cv db
     = (cv\<lparr>cv_channelId := Some (pc_id pc), cv_isLocked := pc_is_locked pc,
           cv_notificationsEnabled := pc_notification_enabled pc, cv_loading := False\<rparr>, db)"
  by (simp add: loadChannel_resume_def)

lemma resume_insert_ok:
  assumes "\<not> (\<exists>pc \<in> set (persona_channels db).
           pc_id pc = fst gen \<or> (pc_contact_id pc = cv_contact_id cv \<and> pc_persona_id pc = cv_persona_id cv))"
  shows "loadChannel_resume None gen cv db
     = (cv\<lparr>cv_channelId := Some (fst gen), cv_isLocked := False,
           cv_notificationsEnabled := True, cv_loading := False\<rparr>,
        db\<lparr>persona_channels := persona_channels db
              @ [default_channel gen (cv_contact_id cv) (cv_persona_id cv)]\<rparr>)"
  unfolding loadChannel_resume_def insert_channel_ok [OF assms]
  by (simp add: default_channel_def)

lemma resume_insert_conflict:
  assumes "\<exists>pc \<in> set (persona_channels db).
           pc_id pc = fst gen \<or> (pc_contact_id pc = cv_contact_id cv \<and> pc_persona_id pc = cv_persona_id cv)"
  shows "loadChannel_resume None gen cv db = (cv\<lparr>cv_loading := False\<rparr>, db)"
  unfolding loadChannel_resume_def insert_channel_conflict [OF assms] by simp

lemma select_none:
  "rows_for_pair c p db = [] \<Longrightarrow> select_persona_channel c p db = None"
  by (simp add: rows_for_pair_def select_persona_channel_def)

lemma select_single:
  "rows_for_pair c p db = [pc] \<Longrightarrow> select_persona_channel c p db = Some pc"
  by (simp add: rows_for_pair_def select_persona_channel_def)

lemma no_conflict:
  assumes "rows_for_pair c p db = []" and "fst gen \<notin> set (map pc_id (persona_channels db))"
  shows "\<not> (\<exists>pc \<in> set (persona_channels db).
           pc_id pc = fst gen \<or> (pc_contact_id pc = c \<and> pc_persona_id pc = p))"
  using assms by (auto simp: rows_for_pair_def filter_empty_conv image_iff)

lemma channels_unique_append:
  assumes "channels_unique db" and "rows_for_pair c p db = []"
    and "fst gen \<notin> set (map pc_id (persona_channels db))"
  shows "channels_unique (db\<lparr>persona_channels := persona_channels db @ [default_channel gen c p]\<rparr>)"
  using assms
  by (auto simp: channels_unique_def rows_for_pair_def filter_empty_conv default_channel_def
        image_iff)

lemma rows_for_pair_append:
  assumes "rows_for_pair c p db = []"
  shows "rows_for_pair c p (db\<lparr>persona_channels := persona_channels db @ [default_channel gen c p]\<rparr>)
         = [default_channel gen c p]"
  using assms by (simp add: rows_for_pair_def default_channel_def)

lemma loadChannel_creates:
  assumes "rows_for_pair (cv_contact_id cv) (cv_persona_id cv) db = []"
    and "fst gen \<notin> set (map pc_id (persona_channels db))"
  shows "loadChannel gen cv db
     = (cv\<lparr>cv_channelId := Some (fst gen), cv_isLocked := False,
           cv_notificationsEnabled := True, cv_loading := False\<rparr>,
        db\<lparr>persona_channels := persona_channels db
              @ [default_channel gen (cv_contact_id cv) (cv_persona_id cv)]\<rparr>)"
proof -
  have nc: "\<not> (\<exists>pc \<in> set (persona_channels db). pc_id pc = fst gen
              \<or> (pc_contact_id pc = cv_contact_id (cv\<lparr>cv_loading := True\<rparr>)
                  \<and> pc_persona_id pc = cv_persona_id (cv\<lparr>cv_loading := True\<rparr>)))"
    using no_conflict [OF assms] by simp
  show ?thesis
    unfolding loadChannel_def select_none [OF assms(1)] resume_insert_ok [OF nc] by simp
qed

lemma loadChannel_existing:
  assumes "rows_for_pair (cv_contact_id cv) (cv_persona_id cv) db = [pc]"
  shows "loadChannel gen cv db
     = (cv\<lparr>cv_channelId := Some (pc_id pc), cv_isLocked := pc_is_locked pc,
           cv_notificationsEnabled := pc_notification_enabled pc, cv_loading := False\<rparr>, db)"
  unfolding loadChannel_def select_single [OF assms] resume_selected by simp

lemma loadChannel_race_result:
  assumes "rows_for_pair c p db = []" and "fst gen1 \<notin> set (map pc_id (persona_channels db))"
    and "cv_contact_id cv1 = c" "cv_persona_id cv1 = p"
    and "cv_contact_id cv2 = c" "cv_persona_id cv2 = p"
  shows "loadChannel_race gen1 gen2 cv1 cv2 db
     = (cv1\<lparr>cv_channelId := Some (fst gen1), cv_isLocked := False,
            cv_notificationsEnabled := True, cv_loading := False\<rparr>,
        cv2\<lparr>cv_loading := False\<rparr>,
        db\<lparr>persona_channels := persona_channels db @ [default_channel gen1 c p]\<rparr>)"
proof -
  let ?db1 = "db\<lparr>persona_channels := persona_channels db @ [default_channel gen1 c p]\<rparr>"
  have nc: "\<not> (\<exists>pc \<in> set (persona_channels db). pc_id pc = fst gen1
              \<or> (pc_contact_id pc = cv_contact_id (cv1\<lparr>cv_loading := True\<rparr>)
                  \<and> pc_persona_id pc = cv_persona_id (cv1\<lparr>cv_loading := True\<rparr>)))"
    using no_conflict [OF assms(1,2)] assms(3,4) by simp
  have first: "loadChannel_resume None gen1 (cv1\<lparr>cv_loading := True\<rparr>) db
     = (cv1\<lparr>cv_channelId := Some (fst gen1), cv_isLocked := False,
            cv_notificationsEnabled := True, cv_loading := False\<rparr>, ?db1)"
    unfolding resume_insert_ok [OF nc] using assms(3,4) by simp
  have cf: "\<exists>pc \<in> set (persona_channels ?db1). pc_id pc = fst gen2
              \<or> (pc_contact_id pc = cv_contact_id (cv2\<lparr>cv_loading := True\<rparr>)
                  \<and> pc_persona_id pc = cv_persona_id (cv2\<lparr>cv_loading := True\<rparr>))"
    using assms(5,6) by (simp add: default_channel_def)
  have second: "loadChannel_resume None gen2 (cv2\<lparr>cv_loading := True\<rparr>) ?db1
     = (cv2\<lparr>cv_loading := False\<rparr>, ?db1)"
    unfolding resume_insert_conflict [OF cf] by simp
  show ?thesis
    unfolding loadChannel_race_def Let_def
    using assms(1,3,4,5,6) first second by (simp add: select_none)
qed

text \<open>
  C3, as stated, fails: when two views resolve the same pair on an empty table and both
  selects run before either insert, the first caller gets the new channel id and the
  second caller's insert is rejected; nothing is fetched again and the second caller is
  left without a channel id.
\<close>

theorem loadChannel_race_loser_counterexample:
  "cv_channelId (fst (loadChannel_race (''n1'', 5) (''n2'', 6)
       (ex_view ''bob'' None []) (ex_view ''bob'' None []) (ex_db_channels []))) = Some ''n1''
   \<and> cv_channelId (fst (snd (loadChannel_race (''n1'', 5) (''n2'', 6)
       (ex_view ''bob'' None []) (ex_view ''bob'' None []) (ex_db_channels [])))) = None"
  by (simp add: loadChannel_race_def loadChannel_resume_def select_persona_channel_def
        insert_persona_channel_def default_channel_def ex_view_def ex_db_channels_def Let_def)

text \<open>
  C3, amended. On a table that respects its uniqueness constraints, resolving a pair
  that has no channel creates exactly one row, with the default flags (unlocked,
  notifications on, unread count 0, no last message time), the constraints still hold,
  and the caller gets the new id. When two resolvers race on the pair, the loser's
  insert is rejected by the uniqueness constraint and adds no row, so the table is the
  one the winner alone would have left and holds one row for the pair; the loser does
  not fetch again and keeps the channel id it had before (none on first load), and a
  later resolve by the loser returns the winner's row and changes nothing. Resolving a
  pair that has a channel returns that row and changes nothing.
\<close>

theorem channel_resolution_single_row:
  assumes "channels_unique db"
    and "cv_contact_id cv = c" "cv_persona_id cv = p"
    and "cv_contact_id cv2 = c" "cv_persona_id cv2 = p"
  shows "(rows_for_pair c p db = [] \<and> fst gen \<notin> set (map pc_id (persona_channels db)) \<longrightarrow>
            cv_channelId (fst (loadChannel gen cv db)) = Some (fst gen)
            \<and> rows_for_pair c p (snd (loadChannel gen cv db))
                = [\<lparr>pc_id = fst gen, pc_contact_id = c, pc_persona_id = p,
                    pc_last_message_at = None, pc_is_locked = False,
                    pc_notification_enabled = True, pc_created_at = snd gen,
                    pc_unread_count = 0\<rparr>]
            \<and> length (persona_channels (snd (loadChannel gen cv db)))
                = Suc (length (persona_channels db))
            \<and> channels_unique (snd (loadChannel gen cv db))
            \<and> cv_channelId (fst (loadChannel_race gen gen2 cv cv2 db)) = Some (fst gen)
            \<and> cv_channelId (fst (snd (loadChannel_race gen gen2 cv cv2 db))) = cv_channelId cv2
            \<and> snd (snd (loadChannel_race gen gen2 cv cv2 db)) = snd (loadChannel gen cv db)
            \<and> cv_channelId (fst (loadChannel gen3
                   (fst (snd (loadChannel_race gen gen2 cv cv2 db)))
                   (snd (snd (loadChannel_race gen gen2 cv cv2 db))))) = Some (fst gen)
            \<and> snd (loadChannel gen3
                   (fst (snd (loadChannel_race gen gen2 cv cv2 db)))
                   (snd (snd (loadChannel_race gen gen2 cv cv2 db))))
                = snd (snd (loadChannel_race gen gen2 cv cv2 db)))
         \<and> (\<forall>pc. rows_for_pair c p db = [pc] \<longrightarrow>
               cv_channelId (fst (loadChannel gen cv db)) = Some (pc_id pc)
               \<and> snd (loadChannel gen cv db) = db)"
proof -
  have create: "rows_for_pair c p db = [] \<and> fst gen \<notin> set (map pc_id (persona_channels db)) \<longrightarrow>
            cv_channelId (fst (loadChannel gen cv db)) = Some (fst gen)
            \<and> rows_for_pair c p (snd (loadChannel gen cv db))
                = [\<lparr>pc_id = fst gen, pc_contact_id = c, pc_persona_id = p,
                    pc_last_message_at = None, pc_is_locked = False,
                    pc_notification_enabled = True, pc_created_at = snd gen,
                    pc_unread_count = 0\<rparr>]
            \<and> length (persona_channels (snd (loadChannel gen cv db)))
                = Suc (length (persona_channels db))
            \<and> channels_unique (snd (loadChannel gen cv db))
            \<and> cv_channelId (fst (loadChannel_race gen gen2 cv cv2 db)) = Some (fst gen)
            \<and> cv_channelId (fst (snd (loadChannel_race gen gen2 cv cv2 db))) = cv_channelId cv2
            \<and> snd (snd (loadChannel_race gen gen2 cv cv2 db)) = snd (loadChannel gen cv db)
            \<and> cv_channelId (fst (loadChannel gen3
                   (fst (snd (loadChannel_race gen gen2 cv cv2 db)))
                   (snd (snd (loadChannel_race gen gen2 cv cv2 db))))) = Some (fst gen)
            \<and> snd (loadChannel gen3
                   (fst (snd (loadChannel_race gen gen2 cv cv2 db)))
                   (snd (snd (loadChannel_race gen gen2 cv cv2 db))))
                = snd (snd (loadChannel_race gen gen2 cv cv2 db))"
  proof
    assume a: "rows_for_pair c p db = [] \<and> fst gen \<notin> set (map pc_id (persona_channels db))"
    let ?db1 = "db\<lparr>persona_channels := persona_channels db @ [default_channel gen c p]\<rparr>"
    have e: "rows_for_pair (cv_contact_id cv) (cv_persona_id cv) db = []"
      using a assms(2,3) by simp
    have lc: "loadChannel gen cv db
       = (cv\<lparr>cv_channelId := Some (fst gen), cv_isLocked := False,
             cv_notificationsEnabled := True, cv_loading := False\<rparr>, ?db1)"
      using loadChannel_creates [OF e, of gen] a assms(2,3) by simp
    have race: "loadChannel_race gen gen2 cv cv2 db
       = (cv\<lparr>cv_channelId := Some (fst gen), cv_isLocked := False,
              cv_notificationsEnabled := True, cv_loading := False\<rparr>,
          cv2\<lparr>cv_loading := False\<rparr>, ?db1)"
      using a assms(2-5) by (intro loadChannel_race_result) simp_all
    have rows1: "rows_for_pair c p ?db1 = [default_channel gen c p]"
      using a by (intro rows_for_pair_append) simp
    have uniq1: "channels_unique ?db1"
      using assms(1) a by (intro channels_unique_append) simp_all
    have e2: "rows_for_pair (cv_contact_id (cv2\<lparr>cv_loading := False\<rparr>))
                (cv_persona_id (cv2\<lparr>cv_loading := False\<rparr>)) ?db1 = [default_channel gen c p]"
      using rows1 assms(4,5) by simp
    have later: "loadChannel gen3 (cv2\<lparr>cv_loading := False\<rparr>) ?db1
       = (cv2\<lparr>cv_loading := False, cv_channelId := Some (fst gen), cv_isLocked := False,
              cv_notificationsEnabled := True, cv_loading := False\<rparr>, ?db1)"
      unfolding loadChannel_existing [OF e2] by (simp add: default_channel_def)
    show "cv_channelId (fst (loadChannel gen cv db)) = Some (fst gen)
            \<and> rows_for_pair c p (snd (loadChannel gen cv db))
                = [\<lparr>pc_id = fst gen, pc_contact_id = c, pc_persona_id = p,
                    pc_last_message_at = None, pc_is_locked = False,
                    pc_notification_enabled = True, pc_created_at = snd gen,
                    pc_unread_count = 0\<rparr>]
            \<and> length (persona_channels (snd (loadChannel gen cv db)))
                = Suc (length (persona_channels db))
            \<and> channels_unique (snd (loadChannel gen cv db))
            \<and> cv_channelId (fst (loadChannel_race gen gen2 cv cv2 db)) = Some (fst gen)
            \<and> cv_channelId (fst (snd (loadChannel_race gen gen2 cv cv2 db))) = cv_channelId cv2
            \<and> snd (snd (loadChannel_race gen gen2 cv cv2 db)) = snd (loadChannel gen cv db)
            \<and> cv_channelId (fst (loadChannel gen3
                   (fst (snd (loadChannel_race gen gen2 cv cv2 db)))
                   (snd (snd (loadChannel_race gen gen2 cv cv2 db))))) = Some (fst gen)
            \<and> snd (loadChannel gen3
                   (fst (snd (loadChannel_race gen gen2 cv cv2 db)))
                   (snd (snd (loadChannel_race gen gen2 cv cv2 db))))
                = snd (snd (loadChannel_race gen gen2 cv cv2 db))"
      unfolding lc race using rows1 uniq1 later
      by (simp add: default_channel_def)
  qed
  have existing: "\<forall>pc. rows_for_pair c p db = [pc] \<longrightarrow>
               cv_channelId (fst (loadChannel gen cv db)) = Some (pc_id pc)
               \<and> snd (loadChannel gen cv db) = db"
  proof (intro allI impI)
    fix pc assume "rows_for_pair c p db = [pc]"
    then have "rows_for_pair (cv_contact_id cv) (cv_persona_id cv) db = [pc]"
      using assms(2,3) by simp
    then show "cv_channelId (fst (loadChannel gen cv db)) = Some (pc_id pc)
               \<and> snd (loadChannel gen cv db) = db"
      by (simp add: loadChannel_existing)
  qed
  show ?thesis
    using create existing by blast
qed

theorem channel_resolution_single_row_witness:
  "channels_unique (ex_db_channels [])
   \<and> cv_channelId (fst (loadChannel (''n1'', 5) (ex_view ''bob'' None []) (ex_db_channels [])))
       = Some ''n1''
   \<and> rows_for_pair ''k1'' ''p1''
        (snd (loadChannel (''n1'', 5) (ex_view ''bob'' None []) (ex_db_channels [])))
       = [\<lparr>pc_id = ''n1'', pc_contact_id = ''k1'', pc_persona_id = ''p1'',
           pc_last_message_at = None, pc_is_locked = False,
           pc_notification_enabled = True, pc_created_at = 5, pc_unread_count = 0\<rparr>]
   \<and> cv_channelId (fst (snd (loadChannel_race (''n1'', 5) (''n2'', 6)
        (ex_view ''bob'' None []) (ex_view ''bob'' None []) (ex_db_channels [])))) = None
   \<and> length (persona_channels (snd (snd (loadChannel_race (''n1'', 5) (''n2'', 6)
        (ex_view ''bob'' None []) (ex_view ''bob'' None []) (ex_db_channels []))))) = 1
   \<and> cv_channelId (fst (loadChannel (''n3'', 7) (ex_view ''bob'' None [])
        (ex_db_channels [ex_channel None 0]))) = Some ''ch1''"
proof -
  have u0: "channels_unique (ex_db_channels [])"
    by (simp add: channels_unique_def ex_db_channels_def)
  have u1: "channels_unique (ex_db_channels [ex_channel None 0])"
    by (simp add: channels_unique_def ex_db_channels_def)
  have k: "cv_contact_id (ex_view ''bob'' None []) = ''k1''"
    and q: "cv_persona_id (ex_view ''bob'' None []) = ''p1''"
    by (simp_all add: ex_view_def)
  have r0: "rows_for_pair ''k1'' ''p1'' (ex_db_channels []) = []"
    by (simp add: rows_for_pair_def ex_db_channels_def)
  have r1: "rows_for_pair ''k1'' ''p1'' (ex_db_channels [ex_channel None 0]) = [ex_channel None 0]"
    by (simp add: rows_for_pair_def ex_db_channels_def ex_channel_def)
  have f0: "fst (''n1'', 5::int) \<notin> set (map pc_id (persona_channels (ex_db_channels [])))"
    by (simp add: ex_db_channels_def)
  have len0: "length (persona_channels (ex_db_channels [])) = 0"
    by (simp add: ex_db_channels_def)
  have id1: "pc_id (ex_channel None 0) = ''ch1''"
    by (simp add: ex_channel_def)
  have none: "cv_channelId (ex_view ''bob'' None []) = None"
    by (simp add: ex_view_def)
  note fresh = channel_resolution_single_row [OF u0 k q k q, of "(''n1'', 5)" "(''n2'', 6)" "(''n3'', 7)"]
  note again = channel_resolution_single_row [OF u1 k q k q, of "(''n3'', 7)" "(''n2'', 6)" "(''n3'', 7)"]
  show ?thesis
    using u0 fresh r0 f0 len0 none again r1 id1 by simp
qed

subsection \<open>C4: last message time\<close>

text \<open>
  C4. A send on a channel whose \<open>last_message_at\<close> is 2000, with the new row created
  at 1500 and the sending client's clock at 1000: the insert trigger keeps 2000, the
  greater of the stored value and the creation time, and the client's own update then
  overwrites it with 1000.
\<close>

theorem handleSendMessage_moves_last_message_at_back:
  "last_message_at_of (ex_db_channels [ex_channel (Some 2000) 0]) ''ch1'' = Some (Some 2000)
   \<and> last_message_at_of
        (insert_message (new_message (''m9'', 1500) ''ch1'' ''bob'' [104, 105])
           (ex_db_channels [ex_channel (Some 2000) 0])) ''ch1'' = Some (Some 2000)
   \<and> last_message_at_of
        (snd (handleSendMessage (''m9'', 1500) 1000 (ex_view ''bob'' (Some ''ch1'') [104, 105])
           (ex_db_channels [ex_channel (Some 2000) 0]))) ''ch1'' = Some (Some 1000)"
  by (simp add: last_message_at_of_def handleSendMessage_def insert_message_def
        increment_unread_count_def update_channel_last_message_at_def channel_owner_id_def
        new_message_def cleanupTyping_def removeTypingIndicator_def trim_def isWhiteSpace_def
        ex_db_channels_def ex_channel_def ex_contacts_def ex_view_def Let_def)

subsection \<open>C5: marking messages as read\<close>

text \<open>
  C5. \<open>mark_messages_as_read\<close> is one batch update: the table keeps its length and
  order; a message of the channel whose sender is not the reader and whose status is not
  \<open>read\<close> becomes \<open>read\<close> with \<open>read_at\<close> the current time and no other column
  changed; every other message (the reader's own, one already read, one of another
  channel) is unchanged, as is every other table; and a second run, at any later time,
  changes nothing. The view's \<open>markMessagesAsRead\<close> is this update with the current
  user as the reader.
\<close>

theorem mark_messages_as_read_batch:
  "length (messages (mark_messages_as_read c r now db)) = length (messages db)
   \<and> (\<forall>i < length (messages db).
        (let m = messages db ! i; m' = messages (mark_messages_as_read c r now db) ! i in
         if m_channel_id m = c \<and> m_sender_id m \<noteq> r \<and> m_status m \<noteq> Read
         then m' = m\<lparr>m_status := Read, m_read_at := Some now\<rparr>
         else m' = m))
   \<and> contacts (mark_messages_as_read c r now db) = contacts db
   \<and> persona_channels (mark_messages_as_read c r now db) = persona_channels db
   \<and> typing_indicators (mark_messages_as_read c r now db) = typing_indicators db
   \<and> user_presence (mark_messages_as_read c r now db) = user_presence db
   \<and> mark_messages_as_read c r now' (mark_messages_as_read c r now db)
       = mark_messages_as_read c r now db
   \<and> (cv_channelId cv = Some c \<and> c \<noteq> [] \<and> cv_user_id cv = r \<longrightarrow>
        markMessagesAsRead now cv db = mark_messages_as_read c r now db)"
proof -
  have twice: "mark_messages_as_read c r now' (mark_messages_as_read c r now db)
       = mark_messages_as_read c r now db"
    unfolding mark_messages_as_read_def
    by (simp add: comp_def cong: if_cong)
  have view: "cv_channelId cv = Some c \<and> c \<noteq> [] \<and> cv_user_id cv = r \<longrightarrow>
        markMessagesAsRead now cv db = mark_messages_as_read c r now db"
    by (simp add: markMessagesAsRead_def)
  show ?thesis
    using twice view by (simp add: mark_messages_as_read_def Let_def)
qed

theorem mark_messages_as_read_batch_witness:
  "messages (mark_messages_as_read ''ch1'' ''bob'' 9 (ex_db ex_msgs)) ! 0
     = msg ''m1'' ''ch1'' ''alice'' Read None (Some 9)
   \<and> messages (mark_messages_as_read ''ch1'' ''bob'' 9 (ex_db ex_msgs)) ! 1
     = msg ''m2'' ''ch1'' ''bob'' Sent None None
   \<and> messages (mark_messages_as_read ''ch1'' ''bob'' 9 (ex_db ex_msgs)) ! 2
     = msg ''m3'' ''ch1'' ''alice'' Read (Some 2) (Some 3)
   \<and> mark_messages_as_read ''ch1'' ''bob'' 15 (mark_messages_as_read ''ch1'' ''bob'' 9 (ex_db ex_msgs))
     = mark_messages_as_read ''ch1'' ''bob'' 9 (ex_db ex_msgs)
   \<and> markMessagesAsRead 9 (ex_view ''bob'' (Some ''ch1'') []) (ex_db ex_msgs)
     = mark_messages_as_read ''ch1'' ''bob'' 9 (ex_db ex_msgs)"
proof -
  have len: "length (messages (ex_db ex_msgs)) = 3"
    by (simp add: ex_db_def ex_msgs_def)
  have rows: "messages (ex_db ex_msgs) ! 0 = msg ''m1'' ''ch1'' ''alice'' Sent None None"
    "messages (ex_db ex_msgs) ! 1 = msg ''m2'' ''ch1'' ''bob'' Sent None None"
    "messages (ex_db ex_msgs) ! 2 = msg ''m3'' ''ch1'' ''alice'' Read (Some 2) (Some 3)"
    by (simp_all add: ex_db_def ex_msgs_def)
  have view: "cv_channelId (ex_view ''bob'' (Some ''ch1'') []) = Some ''ch1''"
    "cv_user_id (ex_view ''bob'' (Some ''ch1'') []) = ''bob''"
    by (simp_all add: ex_view_def)
  note inst = mark_messages_as_read_batch [of "''ch1''" "''bob''" 9 "ex_db ex_msgs" 15
       "ex_view ''bob'' (Some ''ch1'') []"]
  have r0: "messages (mark_messages_as_read ''ch1'' ''bob'' 9 (ex_db ex_msgs)) ! 0
     = msg ''m1'' ''ch1'' ''alice'' Read None (Some 9)"
    using inst len rows(1) by (auto simp: Let_def msg_def)
  have r1: "messages (mark_messages_as_read ''ch1'' ''bob'' 9 (ex_db ex_msgs)) ! 1
     = msg ''m2'' ''ch1'' ''bob'' Sent None None"
    using inst len rows(2) by (auto simp: Let_def msg_def)
  have r2: "messages (mark_messages_as_read ''ch1'' ''bob'' 9 (ex_db ex_msgs)) ! 2
     = msg ''m3'' ''ch1'' ''alice'' Read (Some 2) (Some 3)"
    using inst len rows(3) by (auto simp: Let_def msg_def)
  show ?thesis
    using r0 r1 r2 inst view by simp
qed

subsection \<open>C6: typing signal expiry\<close>

lemma send_existing:
  assumes "\<exists>ti \<in> set (typing_indicators db). ti_channel_id ti = ch \<and> ti_user_id ti = u"
  shows "sendTypingIndicator ch u t gen db
         = db\<lparr>typing_indicators :=
                map (\<lambda>ti. if ti_channel_id ti = ch \<and> ti_user_id ti = u
                           then ti\<lparr>ti_expires_at := t + 5000\<rparr> else ti)
                    (typing_indicators db)\<rparr>"
  unfolding sendTypingIndicator_def Let_def using assms by (rule if_P)

lemma send_fresh:
  assumes "\<not> (\<exists>ti \<in> set (typing_indicators db). ti_channel_id ti = ch \<and> ti_user_id ti = u)"
  shows "sendTypingIndicator ch u t gen db
         = db\<lparr>typing_indicators := typing_indicators db @
                [\<lparr>ti_id = fst gen, ti_channel_id = ch, ti_user_id = u,
                  ti_created_at = snd gen, ti_expires_at = t + 5000\<rparr>]\<rparr>"
  unfolding sendTypingIndicator_def Let_def using assms by (rule if_not_P)

lemma typing_unique_send:
  assumes "typing_unique db"
  shows "typing_unique (sendTypingIndicator ch u t gen db)"
proof (cases "\<exists>ti \<in> set (typing_indicators db). ti_channel_id ti = ch \<and> ti_user_id ti = u")
  case True
  have "map (\<lambda>ti. (ti_channel_id ti, ti_user_id ti))
          (map (\<lambda>ti. if ti_channel_id ti = ch \<and> ti_user_id ti = u
                      then ti\<lparr>ti_expires_at := t + 5000\<rparr> else ti) (typing_indicators db))
        = map (\<lambda>ti. (ti_channel_id ti, ti_user_id ti)) (typing_indicators db)"
    by (rule map_key_preserve) simp
  then have "distinct (map (\<lambda>ti. (ti_channel_id ti, ti_user_id ti))
          (map (\<lambda>ti. if ti_channel_id ti = ch \<and> ti_user_id ti = u
                      then ti\<lparr>ti_expires_at := t + 5000\<rparr> else ti) (typing_indicators db)))"
    using assms by (simp only: typing_unique_def)
  then show ?thesis
    unfolding send_existing [OF True] typing_unique_def by (simp del: map_map)
next
  case False
  then have "(ch, u) \<notin> set (map (\<lambda>ti. (ti_channel_id ti, ti_user_id ti)) (typing_indicators db))"
    by auto
  with assms show ?thesis
    unfolding send_fresh [OF False] typing_unique_def by simp
qed

lemma typing_rows_send:
  assumes "typing_unique db"
  shows "map ti_expires_at (typing_rows ch u (sendTypingIndicator ch u t gen db)) = [t + 5000]"
proof (cases "\<exists>ti \<in> set (typing_indicators db). ti_channel_id ti = ch \<and> ti_user_id ti = u")
  case True
  then obtain x where x: "x \<in> set (typing_indicators db)" "ti_channel_id x = ch" "ti_user_id x = u"
    by auto
  let ?k = "\<lambda>ti. (ti_channel_id ti, ti_user_id ti)"
  let ?K = "\<lambda>ti. ti_channel_id ti = ch \<and> ti_user_id ti = u"
  let ?g = "\<lambda>ti. if ti_channel_id ti = ch \<and> ti_user_id ti = u
                  then ti\<lparr>ti_expires_at := t + 5000\<rparr> else ti"
  have "filter (\<lambda>y. ?k y = ?k x) (typing_indicators db) = [x]"
    using assms x(1) unfolding typing_unique_def by (rule filter_key_single)
  then have one: "filter ?K (typing_indicators db) = [x]"
    using x by simp
  have "filter ?K (map ?g (typing_indicators db)) = map ?g (filter ?K (typing_indicators db))"
    by (rule filter_map_preserve) simp
  then have "filter ?K (map ?g (typing_indicators db)) = [?g x]"
    using one by simp
  then show ?thesis
    unfolding send_existing [OF True] typing_rows_def using x by simp
next
  case False
  then have "filter (\<lambda>ti. ti_channel_id ti = ch \<and> ti_user_id ti = u) (typing_indicators db) = []"
    by (auto simp: filter_empty_conv)
  then show ?thesis
    unfolding send_fresh [OF False] typing_rows_def by simp
qed

text \<open>
  C6. \<open>sendTypingIndicator\<close> on a table that respects UNIQUE(channel_id, user_id)
  leaves exactly one row for the pair, with \<open>expires_at\<close> 5000 ms after the clock
  reading of the call, and the constraint still holds. Every INSERT or UPDATE event
  carries its row. A subscriber that handles an INSERT or UPDATE event when its clock has
  reached the row's \<open>expires_at\<close> never reports typing: for a row of its channel from
  another user it calls back with false, and a view whose contact is that user ends with
  \<open>contactTyping\<close> false. Nothing in the handler depends on when the event was sent.
\<close>

theorem typing_signal_expires:
  assumes "typing_unique db"
  shows "typing_unique (sendTypingIndicator ch u t gen db)
         \<and> map ti_expires_at (typing_rows ch u (sendTypingIndicator ch u t gen db)) = [t + 5000]
         \<and> (eventType p \<in> {INSERT, UPDATE} \<longrightarrow> payload_new p \<noteq> None)
         \<and> (eventType p \<in> {INSERT, UPDATE} \<and> payload_new p = Some row
              \<and> ti_expires_at row \<le> date_now \<longrightarrow>
              (\<forall>v. subscribeToTyping ch' cur date_now p \<noteq> Some (True, v))
              \<and> (ti_channel_id row = ch' \<and> ti_user_id row \<noteq> cur \<longrightarrow>
                   subscribeToTyping ch' cur date_now p = Some (False, Some (ti_user_id row)))
              \<and> (cv_channelId cv = Some ch' \<and> ch' \<noteq> [] \<and> ti_channel_id row = ch'
                  \<and> ti_user_id row = cv_contact_user_id cv
                  \<and> cv_contact_user_id cv \<noteq> cv_user_id cv \<longrightarrow>
                   cv_contactTyping (subscribeToTypingIndicators date_now p cv) = False))"
proof -
  have carries: "eventType p \<in> {INSERT, UPDATE} \<longrightarrow> payload_new p \<noteq> None"
    by (cases p) simp_all
  have ev: "eventType p \<in> {INSERT, UPDATE} \<and> payload_new p = Some row
              \<and> ti_expires_at row \<le> date_now \<longrightarrow>
              (\<forall>v. subscribeToTyping ch' cur date_now p \<noteq> Some (True, v))
              \<and> (ti_channel_id row = ch' \<and> ti_user_id row \<noteq> cur \<longrightarrow>
                   subscribeToTyping ch' cur date_now p = Some (False, Some (ti_user_id row)))"
    by (cases p) (auto simp: subscribeToTyping_def Let_def)
  have view: "eventType p \<in> {INSERT, UPDATE} \<and> payload_new p = Some row
              \<and> ti_expires_at row \<le> date_now \<longrightarrow>
              (cv_channelId cv = Some ch' \<and> ch' \<noteq> [] \<and> ti_channel_id row = ch'
                  \<and> ti_user_id row = cv_contact_user_id cv
                  \<and> cv_contact_user_id cv \<noteq> cv_user_id cv \<longrightarrow>
                   cv_contactTyping (subscribeToTypingIndicators date_now p cv) = False)"
    by (cases p)
       (auto simp: subscribeToTypingIndicators_def subscribeToTyping_def Let_def)
  show ?thesis
    using typing_unique_send [OF assms] typing_rows_send [OF assms] carries ev view by blast
qed

theorem typing_signal_expires_witness:
  "typing_unique (ex_db [])
   \<and> map ti_expires_at (typing_rows ''ch1'' ''alice''
        (sendTypingIndicator ''ch1'' ''alice'' 0 (''t1'', 0) (ex_db []))) = [5000]
   \<and> map ti_expires_at (typing_rows ''ch1'' ''alice''
        (sendTypingIndicator ''ch1'' ''alice'' 1000 (''t2'', 1003)
           (sendTypingIndicator ''ch1'' ''alice'' 0 (''t1'', 0) (ex_db [])))) = [6000]
   \<and> subscribeToTyping ''ch1'' ''bob'' 6000 (Inserted (ex_typing ''alice'' 5000))
       = Some (False, Some ''alice'')
   \<and> cv_contactTyping (subscribeToTypingIndicators 6000 (Updated (ex_typing ''alice'' 5000))
        ((ex_view ''bob'' (Some ''ch1'') [])\<lparr>cv_contactTyping := True\<rparr>)) = False"
proof -
  have u0: "typing_unique (ex_db [])"
    by (simp add: typing_unique_def ex_db_def)
  have u1: "typing_unique (sendTypingIndicator ''ch1'' ''alice'' 0 (''t1'', 0) (ex_db []))"
    by (simp add: typing_unique_def sendTypingIndicator_def ex_db_def)
  show ?thesis
    using u0
      typing_signal_expires [OF u0, of "''ch1''" "''alice''" 0 "(''t1'', 0)"
        "Inserted (ex_typing ''alice'' 5000)" "ex_typing ''alice'' 5000" 6000 "''ch1''" "''bob''"
        "(ex_view ''bob'' (Some ''ch1'') [])\<lparr>cv_contactTyping := True\<rparr>"]
      typing_signal_expires [OF u1, of "''ch1''" "''alice''" 1000 "(''t2'', 1003)"
        "Updated (ex_typing ''alice'' 5000)" "ex_typing ''alice'' 5000" 6000 "''ch1''" "''bob''"
        "(ex_view ''bob'' (Some ''ch1'') [])\<lparr>cv_contactTyping := True\<rparr>"]
    by (simp add: ex_typing_def ex_view_def)
qed

subsection \<open>C7: typing self-filter and delete\<close>

text \<open>
  C7. Alice's typing row \<open>t1\<close> and Bob's own row \<open>t2\<close> are in channel \<open>ch1\<close>,
  and Bob's view shows Alice typing. Alice clears her signal: the row is deleted and Bob's
  subscription handles the DELETE event. The handler reads \<open>payload.new\<close>, which is
  empty, so the callback is called with false and no user id, and the view, which
  compares that id with the contact's, still shows Alice typing. The DELETE event of
  Bob's own row gives the same call: the self-filter does not see whose row it was.
\<close>

theorem typing_delete_event_loses_the_user:
  "typing_indicators (removeTypingIndicator ''ch1'' ''alice''
       ((ex_db [])\<lparr>typing_indicators :=
           [ex_typing ''alice'' 5000, (ex_typing ''bob'' 5000)\<lparr>ti_id := ''t2''\<rparr>]\<rparr>))
     = [(ex_typing ''bob'' 5000)\<lparr>ti_id := ''t2''\<rparr>]
   \<and> subscribeToTyping ''ch1'' ''bob'' 10 (Deleted ''t1'') = Some (False, None)
   \<and> cv_contactTyping (subscribeToTypingIndicators 10 (Deleted ''t1'')
        ((ex_view ''bob'' (Some ''ch1'') [])\<lparr>cv_contactTyping := True\<rparr>)) = True
   \<and> subscribeToTyping ''ch1'' ''bob'' 10 (Deleted ''t2'') = Some (False, None)"
  by (simp add: removeTypingIndicator_def subscribeToTyping_def subscribeToTypingIndicators_def
        ex_db_def ex_typing_def ex_view_def)

subsection \<open>C8: presence\<close>

lemma update_existing:
  assumes "\<exists>up \<in> set (user_presence db). up_user_id up = u"
  shows "updatePresence u s d g db
         = db\<lparr>user_presence :=
                map (\<lambda>up. if up_user_id up = u
                           then up\<lparr>up_status := s, up_last_seen := fst d, up_updated_at := snd d\<rparr>
                           else up)
                    (user_presence db)\<rparr>"
  unfolding updatePresence_def using assms by (rule if_P)

lemma update_fresh:
  assumes "\<not> (\<exists>up \<in> set (user_presence db). up_user_id up = u)"
  shows "updatePresence u s d g db
         = db\<lparr>user_presence := user_presence db @
                [\<lparr>up_id = g, up_user_id = u, up_status = s,
                  up_last_seen = fst d, up_updated_at = snd d\<rparr>]\<rparr>"
  unfolding updatePresence_def using assms by (rule if_not_P)

lemma presence_unique_update:
  assumes "presence_unique db"
  shows "presence_unique (updatePresence u s d g db)"
proof (cases "\<exists>up \<in> set (user_presence db). up_user_id up = u")
  case True
  have "map up_user_id
          (map (\<lambda>up. if up_user_id up = u
                      then up\<lparr>up_status := s, up_last_seen := fst d, up_updated_at := snd d\<rparr>
                      else up) (user_presence db))
        = map up_user_id (user_presence db)"
    by (rule map_key_preserve) simp
  then have "distinct (map up_user_id
          (map (\<lambda>up. if up_user_id up = u
                      then up\<lparr>up_status := s, up_last_seen := fst d, up_updated_at := snd d\<rparr>
                      else up) (user_presence db)))"
    using assms by (simp only: presence_unique_def)
  then show ?thesis
    unfolding update_existing [OF True] presence_unique_def by (simp del: map_map)
next
  case False
  then have "u \<notin> set (map up_user_id (user_presence db))"
    by auto
  with assms show ?thesis
    unfolding update_fresh [OF False] presence_unique_def by simp
qed

lemma last_seen_update:
  "last_seen_of (updatePresence u' s d g db) u
     = (if u' = u then Some (fst d) else last_seen_of db u)"
proof (cases "\<exists>up \<in> set (user_presence db). up_user_id up = u'")
  case True
  let ?g = "\<lambda>up. if up_user_id up = u'
                  then up\<lparr>up_status := s, up_last_seen := fst d, up_updated_at := snd d\<rparr>
                  else up"
  have fm: "find (\<lambda>up. up_user_id up = u) (map ?g (user_presence db))
            = map_option ?g (find (\<lambda>up. up_user_id up = u) (user_presence db))"
    by (rule find_map_preserve) simp
  show ?thesis
  proof (cases "find (\<lambda>up. up_user_id up = u) (user_presence db)")
    case None
    then have "u' \<noteq> u"
      using True by (auto simp: find_None_none)
    with None fm show ?thesis
      unfolding update_existing [OF True] last_seen_of_def by simp
  next
    case (Some x)
    then have "up_user_id x = u" by (rule find_Some_holds)
    with Some fm show ?thesis
      unfolding update_existing [OF True] last_seen_of_def by simp
  qed
next
  case False
  show ?thesis
  proof (cases "find (\<lambda>up. up_user_id up = u) (user_presence db)")
    case None
    then show ?thesis
      unfolding update_fresh [OF False] last_seen_of_def by (simp add: find_snoc)
  next
    case (Some x)
    then have "up_user_id x = u" "x \<in> set (user_presence db)"
      by (auto dest: find_Some_holds simp: find_Some_iff in_set_conv_nth)
    with False have "u' \<noteq> u" by auto
    with Some show ?thesis
      unfolding update_fresh [OF False] last_seen_of_def by (simp add: find_snoc)
  qed
qed

lemma last_seen_step:
  "last_seen_of (presence_step db c) u
     = (if call_user c = u then Some (call_last_seen c) else last_seen_of db u)"
  by (simp add: presence_step_def last_seen_update)

lemma presence_run_snoc: "presence_run db (cs @ [c]) = presence_step (presence_run db cs) c"
  by (simp add: presence_run_def)

lemma presence_unique_run:
  "presence_unique db \<Longrightarrow> presence_unique (presence_run db calls)"
  by (induction calls rule: rev_induct)
     (simp_all add: presence_run_def presence_step_def presence_unique_update)

lemma last_seen_run:
  "last_seen_of (presence_run db calls) u
     = (if filter (\<lambda>c. call_user c = u) calls = [] then last_seen_of db u
        else Some (call_last_seen (last (filter (\<lambda>c. call_user c = u) calls))))"
proof (induction calls rule: rev_induct)
  case Nil
  show ?case by (simp add: presence_run_def)
next
  case (snoc c cs)
  show ?case
    unfolding presence_run_snoc last_seen_step using snoc.IH by simp
qed

lemma last_seen_values_set:
  "set (last_seen_values db cs u)
     \<subseteq> set (case last_seen_of db u of None \<Rightarrow> [] | Some t \<Rightarrow> [t]) \<union> call_last_seen ` set cs"
proof (induction cs arbitrary: db)
  case Nil
  show ?case by simp
next
  case (Cons c cs)
  have "set (last_seen_values (presence_step db c) cs u)
          \<subseteq> set (case last_seen_of (presence_step db c) u of None \<Rightarrow> [] | Some t \<Rightarrow> [t])
            \<union> call_last_seen ` set cs"
    by (rule Cons.IH)
  then show ?case
    by (auto simp: last_seen_step split: option.splits if_splits)
qed

lemma last_seen_values_sorted:
  assumes "sorted (map call_last_seen cs)"
    and "\<And>t c. last_seen_of db u = Some t \<Longrightarrow> c \<in> set cs \<Longrightarrow> t \<le> call_last_seen c"
  shows "sorted (last_seen_values db cs u)"
  using assms
proof (induction cs arbitrary: db)
  case Nil
  show ?case by (simp split: option.splits)
next
  case (Cons c cs)
  have s: "sorted (map call_last_seen cs)"
    and le: "\<And>c'. c' \<in> set cs \<Longrightarrow> call_last_seen c \<le> call_last_seen c'"
    using Cons.prems(1) by auto
  have init: "\<And>t c'. last_seen_of (presence_step db c) u = Some t \<Longrightarrow> c' \<in> set cs
                \<Longrightarrow> t \<le> call_last_seen c'"
    using le Cons.prems(2) by (auto simp: last_seen_step split: if_splits)
  have rest: "sorted (last_seen_values (presence_step db c) cs u)"
    using s init by (rule Cons.IH)
  have cross: "y \<in> set (last_seen_values (presence_step db c) cs u) \<Longrightarrow> t \<le> y"
    if "last_seen_of db u = Some t" for t y
    using that last_seen_values_set [of "presence_step db c" cs u] Cons.prems(2) [OF that]
    by (auto simp: last_seen_step split: if_splits option.splits)
  show ?case
    using rest cross by (auto simp: sorted_append split: option.splits)
qed

text \<open>
  C8, as stated, fails: a heartbeat tick stamped 100 followed by a visibility change
  stamped 50 (a second device whose clock is behind, or a request that overtook another)
  takes \<open>last_seen\<close> from 100 back to 50.
\<close>

theorem last_seen_decreases_counterexample:
  "\<not> sorted (last_seen_values (ex_db [])
        [ex_call ''bob'' HeartbeatTick 100, ex_call ''bob'' VisibilityHidden 50] ''bob'')"
  by (simp add: last_seen_of_def presence_step_def updatePresence_def ex_db_def ex_call_def)

text \<open>
  C8, amended. On a table that respects UNIQUE(user_id), any sequence of heartbeat
  ticks, visibility changes and teardowns, of any users, leaves at most one presence row
  per user, and a user's \<open>last_seen\<close> is the clock reading of that user's last call.
  So \<open>last_seen\<close> is non-decreasing along every sequence of calls whose clock readings
  are non-decreasing and not below the stored value.
\<close>

theorem presence_one_row_last_seen_is_last_reading:
  assumes "presence_unique db"
  shows "presence_unique (presence_run db calls)
         \<and> length (presence_rows u (presence_run db calls)) \<le> 1
         \<and> (filter (\<lambda>c. call_user c = u) calls \<noteq> [] \<longrightarrow>
              last_seen_of (presence_run db calls) u
                = Some (call_last_seen (last (filter (\<lambda>c. call_user c = u) calls))))
         \<and> (sorted (map call_last_seen calls)
              \<and> (\<forall>t. last_seen_of db u = Some t \<longrightarrow> (\<forall>c \<in> set calls. t \<le> call_last_seen c))
              \<longrightarrow> sorted (last_seen_values db calls u))"
proof -
  have uniq: "presence_unique (presence_run db calls)"
    using assms by (rule presence_unique_run)
  then have rows: "length (presence_rows u (presence_run db calls)) \<le> 1"
    unfolding presence_unique_def presence_rows_def by (rule distinct_key_rows)
  show ?thesis
    using uniq rows last_seen_run [of db calls u] last_seen_values_sorted [of calls db u]
    by auto
qed

theorem presence_one_row_last_seen_is_last_reading_witness:
  "presence_unique (ex_db [])
   \<and> length (presence_rows ''bob'' (presence_run (ex_db [])
        [ex_call ''bob'' HeartbeatTick 100, ex_call ''alice'' HeartbeatTick 120,
         ex_call ''bob'' VisibilityHidden 130, ex_call ''bob'' Teardown 170])) \<le> 1
   \<and> last_seen_of (presence_run (ex_db [])
        [ex_call ''bob'' HeartbeatTick 100, ex_call ''alice'' HeartbeatTick 120,
         ex_call ''bob'' VisibilityHidden 130, ex_call ''bob'' Teardown 170]) ''bob'' = Some 170
   \<and> sorted (last_seen_values (ex_db [])
        [ex_call ''bob'' HeartbeatTick 100, ex_call ''alice'' HeartbeatTick 120,
         ex_call ''bob'' VisibilityHidden 130, ex_call ''bob'' Teardown 170] ''bob'')"
proof -
  have u0: "presence_unique (ex_db [])"
    by (simp add: presence_unique_def ex_db_def)
  have l0: "last_seen_of (ex_db []) ''bob'' = None"
    by (simp add: last_seen_of_def ex_db_def)
  show ?thesis
    using u0 l0
      presence_one_row_last_seen_is_last_reading [OF u0,
        of "[ex_call ''bob'' HeartbeatTick 100, ex_call ''alice'' HeartbeatTick 120,
             ex_call ''bob'' VisibilityHidden 130, ex_call ''bob'' Teardown 170]" "''bob''"]
    by (simp add: ex_call_def)
qed

subsection \<open>C9: validation\<close>

lemma trim_whitespace_only:
  assumes "\<forall>c \<in> set s. isWhiteSpace c"
  shows "trim s = []"
proof -
  have "dropWhile isWhiteSpace s = []"
    using assms by (induction s) auto
  then have "trim s = rev (dropWhile isWhiteSpace (rev []))"
    unfolding trim_def by (rule arg_cong)
  then show ?thesis by simp
qed

lemma validateFile_too_large:
  "f_size f > MAX_FILE_SIZE \<Longrightarrow>
     validateFile f = \<lparr>v_valid = False, v_error = Some ''File size exceeds 50MB limit''\<rparr>"
  by (simp add: validateFile_def MAX_FILE_SIZE_def toString_def digit_char_def)

lemma validateFile_bad_type:
  "f_size f \<le> MAX_FILE_SIZE \<Longrightarrow> f_type f \<notin> set ALLOWED_TYPES \<Longrightarrow>
     validateFile f = \<lparr>v_valid = False, v_error = Some ''File type not allowed''\<rparr>"
  by (simp add: validateFile_def)

lemma validateFile_valid_iff:
  "v_valid (validateFile f) \<longleftrightarrow> f_size f \<le> MAX_FILE_SIZE \<and> f_type f \<in> set ALLOWED_TYPES"
  by (simp add: validateFile_def)

lemma uploadFile_invalid:
  "\<not> v_valid (validateFile f) \<Longrightarrow>
     uploadFile f ch u t r g b
       = (Inl (Error (case v_error (validateFile f) of None \<Rightarrow> [] | Some e \<Rightarrow> e)), b)"
  by (simp add: uploadFile_def Let_def)

text \<open>
  C9. A message whose text is empty or made of whitespace only is dropped by the guard
  of \<open>handleSendMessage\<close>: the view and every table are returned as they were, so no
  row is inserted and no channel is updated. A file over 50MB, or one whose MIME type is
  not in the allowed list, is invalid for \<open>validateFile\<close> (and no other file is), and
  \<open>uploadFile\<close> throws the validation message with the bucket untouched.
\<close>

theorem validation_rejects_before_mutation:
  "((\<forall>c \<in> set (cv_newMessage cv). isWhiteSpace c) \<longrightarrow>
      handleSendMessage gen date_now cv db = (cv, db))
   \<and> (v_valid (validateFile f) \<longleftrightarrow>
        \<not> (f_size f > 50 * 1024 * 1024 \<or> f_type f \<notin> set ALLOWED_TYPES))
   \<and> (f_size f > 50 * 1024 * 1024 \<longrightarrow>
        uploadFile f ch u t r g b = (Inl (Error ''File size exceeds 50MB limit''), b))
   \<and> (f_size f \<le> 50 * 1024 * 1024 \<and> f_type f \<notin> set ALLOWED_TYPES \<longrightarrow>
        uploadFile f ch u t r g b = (Inl (Error ''File type not allowed''), b))"
proof -
  have send: "(\<forall>c \<in> set (cv_newMessage cv). isWhiteSpace c) \<longrightarrow>
      handleSendMessage gen date_now cv db = (cv, db)"
    by (auto simp: handleSendMessage_def trim_whitespace_only split: option.splits)
  have valid: "v_valid (validateFile f) \<longleftrightarrow>
        \<not> (f_size f > 50 * 1024 * 1024 \<or> f_type f \<notin> set ALLOWED_TYPES)"
    by (auto simp: validateFile_valid_iff MAX_FILE_SIZE_def)
  have large: "f_size f > 50 * 1024 * 1024 \<longrightarrow>
        uploadFile f ch u t r g b = (Inl (Error ''File size exceeds 50MB limit''), b)"
  proof
    assume "f_size f > 50 * 1024 * 1024"
    then have big: "f_size f > MAX_FILE_SIZE" by (simp add: MAX_FILE_SIZE_def)
    then have "\<not> v_valid (validateFile f)" by (simp add: validateFile_valid_iff)
    then show "uploadFile f ch u t r g b = (Inl (Error ''File size exceeds 50MB limit''), b)"
      by (simp add: uploadFile_invalid validateFile_too_large [OF big])
  qed
  have type: "f_size f \<le> 50 * 1024 * 1024 \<and> f_type f \<notin> set ALLOWED_TYPES \<longrightarrow>
        uploadFile f ch u t r g b = (Inl (Error ''File type not allowed''), b)"
  proof
    assume a: "f_size f \<le> 50 * 1024 * 1024 \<and> f_type f \<notin> set ALLOWED_TYPES"
    then have small: "f_size f \<le> MAX_FILE_SIZE" by (simp add: MAX_FILE_SIZE_def)
    have "\<not> v_valid (validateFile f)" using a by (simp add: validateFile_valid_iff)
    then show "uploadFile f ch u t r g b = (Inl (Error ''File type not allowed''), b)"
      using a by (simp add: uploadFile_invalid validateFile_bad_type [OF small])
  qed
  show ?thesis
    using send valid large type by blast
qed

theorem validation_rejects_before_mutation_witness:
  "handleSendMessage (''m9'', 7) 8 (ex_view ''bob'' (Some ''ch1'') [32, 9, 10, 160])
       (ex_db_channels [ex_channel None 0])
     = (ex_view ''bob'' (Some ''ch1'') [32, 9, 10, 160], ex_db_channels [ex_channel None 0])
   \<and> \<not> v_valid (validateFile \<lparr>f_name = ''a.png'', f_size = 52428801, f_type = ''image/png''\<rparr>)
   \<and> v_valid (validateFile \<lparr>f_name = ''a.png'', f_size = 52428800, f_type = ''image/png''\<rparr>)
   \<and> uploadFile \<lparr>f_name = ''a.png'', f_size = 52428801, f_type = ''image/png''\<rparr>
        ''ch1'' ''bob'' 1700000000000 ''0.4fzyo82mvyr'' id []
       = (Inl (Error ''File size exceeds 50MB limit''), [])
   \<and> uploadFile \<lparr>f_name = ''a.exe'', f_size = 10, f_type = ''application/x-msdownload''\<rparr>
        ''ch1'' ''bob'' 1700000000000 ''0.4fzyo82mvyr'' id []
       = (Inl (Error ''File type not allowed''), [])"
  using
    validation_rejects_before_mutation [of "ex_view ''bob'' (Some ''ch1'') [32, 9, 10, 160]"
      "(''m9'', 7)" 8 "ex_db_channels [ex_channel None 0]"
      "\<lparr>f_name = ''a.png'', f_size = 52428801, f_type = ''image/png''\<rparr>"
      "''ch1''" "''bob''" 1700000000000 "''0.4fzyo82mvyr''" id "[]"]
    validation_rejects_before_mutation [of "ex_view ''bob'' (Some ''ch1'') [32, 9, 10, 160]"
      "(''m9'', 7)" 8 "ex_db_channels [ex_channel None 0]"
      "\<lparr>f_name = ''a.png'', f_size = 52428800, f_type = ''image/png''\<rparr>"
      "''ch1''" "''bob''" 1700000000000 "''0.4fzyo82mvyr''" id "[]"]
    validation_rejects_before_mutation [of "ex_view ''bob'' (Some ''ch1'') [32, 9, 10, 160]"
      "(''m9'', 7)" 8 "ex_db_channels [ex_channel None 0]"
      "\<lparr>f_name = ''a.exe'', f_size = 10, f_type = ''application/x-msdownload''\<rparr>"
      "''ch1''" "''bob''" 1700000000000 "''0.4fzyo82mvyr''" id "[]"]
  by (simp add: ex_view_def isWhiteSpace_def ALLOWED_TYPES_def ALLOWED_IMAGE_TYPES_def
        ALLOWED_DOCUMENT_TYPES_def ALLOWED_VIDEO_TYPES_def ALLOWED_AUDIO_TYPES_def)

subsection \<open>C10: unread badge\<close>

text \<open>
  C10. The unread badge renders nothing for a count of zero or less; for a count from 1
  to max it shows the count's decimal numeral; for a positive count above max it shows
  max followed by a plus sign. (A count above max that is itself not positive, which
  needs a negative max, falls under the first case.) With the default max the cap reads
  99+.
\<close>

theorem UnreadBadge_display:
  "(count \<le> 0 \<longrightarrow> UnreadBadge count sz mx = None)
   \<and> (1 \<le> count \<and> count \<le> mx \<longrightarrow>
        map_option displayCount (UnreadBadge count sz mx) = Some (toString count))
   \<and> (0 < count \<and> mx < count \<longrightarrow>
        map_option displayCount (UnreadBadge count sz mx) = Some (toString mx @ ''+''))
   \<and> (99 < count \<longrightarrow>
        map_option displayCount (UnreadBadge_default count) = Some ''99+'')"
  by (simp add: UnreadBadge_def UnreadBadge_default_def toString_def digit_char_def)

theorem UnreadBadge_display_witness:
  "UnreadBadge 0 sm 99 = None
   \<and> map_option displayCount (UnreadBadge 42 md 99) = Some ''42''
   \<and> map_option displayCount (UnreadBadge 99 md 99) = Some ''99''
   \<and> map_option displayCount (UnreadBadge 100 lg 99) = Some ''99+''
   \<and> map_option displayCount (UnreadBadge_default 1000) = Some ''99+''"
  using UnreadBadge_display [of 0 sm 99] UnreadBadge_display [of 42 md 99]
    UnreadBadge_display [of 99 md 99] UnreadBadge_display [of 100 lg 99]
    UnreadBadge_display [of 1000 md 99]
  by (simp add: toString_def digit_char_def)

end
